theory Spec2Isabelle
  imports Complex_Main
begin

section \<open>Data model of src/api/socket.js\<close>

text \<open>
  The server keeps two module-level maps, \<open>rooms\<close> (room code to room object) and
  \<open>players\<close> (socket id to player object). A room's \<open>players\<close> array holds references
  to the player objects of the registry; the handlers only ever read \<open>p.id\<close> and the
  array's length from it, and \<open>id\<close> is never assigned after the object's creation, so
  the array is modelled as the list of the ids of the referenced objects (the payloads
  that carry the array carry this list). The transport hands every connection an id of
  its own.

  Three fields are renamed, since their names are taken: \<open>id\<close> is \<open>pid\<close>, \<open>round\<close> is
  \<open>roundN\<close>, and the \<open>players\<close> array of a room is \<open>room_players\<close>.

  \<open>Date.now()\<close> is the parameter \<open>now\<close> of a handler (\<open>create_room\<close> reads it twice,
  for \<open>createdAt\<close> and \<open>lastActivity\<close>, and is given one value for both).
  \<open>Math.random()\<close> is a parameter too: the double it returns, or a sequence of them
  where the number of calls is not bounded. \<open>console.log\<close> prints, which is no effect
  on the maps or the transport, but it converts its template literal to a string first,
  which can throw.
\<close>

type_synonym sid = string
type_synonym code = string
type_synonym rand = "nat \<Rightarrow> rat"

text \<open>
  A value that a client can send as \<open>data.name\<close>: a string; a falsy value other than
  the empty string (\<open>undefined\<close>, \<open>null\<close>, \<open>false\<close>, \<open>0\<close>, \<open>NaN\<close>, also a missing
  property); another value whose conversion to a string succeeds (a non-zero number,
  \<open>true\<close>, an array or object with the inherited \<open>toString\<close>); or a value whose
  conversion to a string throws a TypeError (an object such as \<open>{toString: 0}\<close>, whose
  \<open>toString\<close> and \<open>valueOf\<close> give no primitive, or an array that holds one).
\<close>

datatype jsval = Str string | Falsy | Printable | Unprintable

definition truthy :: "jsval \<Rightarrow> bool" where
  "truthy v = (case v of Str s \<Rightarrow> s \<noteq> [] | Falsy \<Rightarrow> False | Printable \<Rightarrow> True | Unprintable \<Rightarrow> True)"

text \<open>A template literal \<open>`... ${v} ...`\<close> throws a TypeError when \<open>v\<close> has no string form.\<close>

definition template_throws :: "jsval \<Rightarrow> bool" where
  "template_throws v = (v = Unprintable)"

record player =
  pid :: sid
  name :: jsval
  room :: "code option"
  isPlayer1 :: bool
  connectedAt :: int

text \<open>\<open>currentTurn\<close> and \<open>winner\<close> only ever hold the strings 'player1' and 'player2'.\<close>

datatype seat = Player1 | Player2

record gameState =
  player1Health :: int
  player2Health :: int
  gameActive :: bool
  currentTurn :: seat
  roundN :: int
  player1Wins :: int
  player2Wins :: int

record room =
  code :: code
  room_players :: "sid list"
  gameState :: gameState
  createdAt :: int
  lastActivity :: int

record state =
  rooms :: "code \<rightharpoonup> room"
  players :: "sid \<rightharpoonup> player"

section \<open>Doubles\<close>

text \<open>
  A JavaScript number is a double; a finite double is modelled by the rational it
  denotes. \<open>fl\<close> rounds a rational to the nearest double, ties to even: 53 significant
  bits, the exponent of the leading bit between -1022 and 1023, and the spacing
  \<open>2 powi (- 1074)\<close> of the subnormal numbers below \<open>2 powi (- 1022)\<close>. Overflow to
  \<open>Infinity\<close> is not modelled: every product of this program is below 32. The sums,
  differences and \<open>Math.max\<close> of the program are on integers far below \<open>2 ^ 53\<close>, where
  doubles are exact.

  \<open>expo p e\<close> searches downwards from \<open>e\<close> for the exponent of the leading bit of \<open>p\<close>,
  and stops at -1022.
\<close>

function expo :: "rat \<Rightarrow> int \<Rightarrow> int" where
  "expo p e = (if e \<le> - 1022 \<or> 2 powi e \<le> p then e else expo p (e - 1))"
  by pat_completeness auto
termination
  by (relation "measure (\<lambda>(p, e). nat (e + 1022))") auto

declare expo.simps [simp del]

text \<open>Rounding to the nearest integer, ties to the even one.\<close>

definition rne :: "rat \<Rightarrow> int" where
  "rne x =
     (let f = \<lfloor>x\<rfloor>; d = x - of_int f
      in if d < 1 / 2 then f
         else if 1 / 2 < d then f + 1
         else if even f then f else f + 1)"

definition fl_pos :: "rat \<Rightarrow> rat" where
  "fl_pos p = (let q = 2 powi (expo p 1023 - 52) in of_int (rne (p / q)) * q)"

definition fl :: "rat \<Rightarrow> rat" where
  "fl p = (if p = 0 then 0 else if p < 0 then - fl_pos (- p) else fl_pos p)"

definition is_double :: "rat \<Rightarrow> bool" where
  "is_double r = (fl r = r)"

text \<open>The operator \<open>*\<close> on two doubles.\<close>

definition js_times :: "rat \<Rightarrow> rat \<Rightarrow> rat" where
  "js_times a b = fl (a * b)"

section \<open>generateRoomCode\<close>

definition chars :: string where
  "chars = ''ABCDEFGHIJKLMNOPQRSTUVWXYZ''"

text \<open>\<open>String.prototype.charAt\<close>: the empty string when the index is out of range.\<close>

definition charAt :: "string \<Rightarrow> int \<Rightarrow> string" where
  "charAt s i = (if 0 \<le> i \<and> i < int (length s) then [s ! nat i] else [])"

text \<open>
  The \<open>for\<close> loop of \<open>generateRoomCode\<close>: \<open>i\<close> is the loop counter, \<open>k\<close> the number
  of calls of \<open>Math.random()\<close> made so far, \<open>c\<close> the code built so far.
\<close>

function codeLoop :: "rand \<Rightarrow> nat \<Rightarrow> nat \<Rightarrow> string \<Rightarrow> string" where
  "codeLoop rnd i k c =
     (if i < 4
      then codeLoop rnd (i + 1) (k + 1)
             (c @ charAt chars \<lfloor>js_times (rnd k) (of_nat (length chars))\<rfloor>)
      else c)"
  by pat_completeness auto
termination
  by (relation "measure (\<lambda>(rnd, i, k, c). 4 - i)") auto

declare codeLoop.simps [simp del]

text \<open>
  The recursive retry. Every call takes a frame of the call stack; the first argument
  is the number of frames that are left for it, and a call with none left ends in a
  RangeError (\<open>Maximum call stack size exceeded\<close>), which is the value \<open>None\<close>.
\<close>

fun generateRoomCode :: "nat \<Rightarrow> (code \<rightharpoonup> room) \<Rightarrow> rand \<Rightarrow> nat \<Rightarrow> code option" where
  "generateRoomCode 0 rs rnd k = None"
| "generateRoomCode (Suc frames) rs rnd k =
     (let c = codeLoop rnd 0 k []
      in if rs c \<noteq> None then generateRoomCode frames rs rnd (k + 4) else Some c)"

text \<open>The code drawn at the \<open>n\<close>-th attempt.\<close>

definition attempt :: "rand \<Rightarrow> nat \<Rightarrow> code" where
  "attempt rnd n = codeLoop rnd 0 (4 * n) []"

text \<open>The contract of \<open>Math.random()\<close>: a double, at least 0 and less than 1.\<close>

definition unit_interval :: "rand \<Rightarrow> bool" where
  "unit_interval rnd = (\<forall>k. 0 \<le> rnd k \<and> rnd k < 1 \<and> is_double (rnd k))"


section \<open>Events, payloads and what a handler does to the transport\<close>

text \<open>
  The argument \<open>data\<close> of a handler is whatever the client sent. \<open>None\<close> is a payload
  that is \<open>undefined\<close> or \<open>null\<close> (reading a property of it raises a TypeError);
  \<open>Some d\<close> is any other value. Its \<open>name\<close> is a value as above. Its \<open>roomCode\<close>,
  \<open>player\<close> and \<open>action\<close> are only looked up in the map of rooms, compared with
  string literals and passed on, so that each is a string or, for every other value and
  for a missing property, \<open>None\<close>.
\<close>

record payload =
  d_name :: jsval
  d_roomCode :: "string option"
  d_player :: "string option"
  d_action :: "string option"

datatype msg =
    Room_created code
  | Room_not_found
  | Room_full
  | Room_joined code
  | Player_joined "sid list" sid
  | Player_left "sid list"
  | Game_start "sid list" gameState
  | Error string
  | Game_action_msg "string option" "string option" int
  | Game_update int int seat "seat option" int int

text \<open>
  The calls a handler makes on the transport, in order: \<open>socket.emit\<close>,
  \<open>io.to(code).emit\<close>, \<open>socket.join\<close> and \<open>socket.leave\<close>.
\<close>

datatype effect =
    Socket_emit sid msg
  | Io_to_emit code msg
  | Socket_join sid code
  | Socket_leave sid "string option"

datatype js_error = TypeError | RangeError

text \<open>
  A handler either returns or throws; in both cases the state is what the two maps hold
  at that moment, and the effects are the transport calls made until then.
\<close>

datatype outcome =
    Returned state "effect list"
  | Threw js_error state "effect list"

fun state_of :: "outcome \<Rightarrow> state" where
  "state_of (Returned st out) = st"
| "state_of (Threw e st out) = st"

fun effects_of :: "outcome \<Rightarrow> effect list" where
  "effects_of (Returned st out) = out"
| "effects_of (Threw e st out) = out"

fun threw :: "outcome \<Rightarrow> bool" where
  "threw (Returned st out) = False"
| "threw (Threw e st out) = True"

text \<open>\<open>rooms.get(k)\<close> for a key that may be \<open>undefined\<close>: every key of the map is a string.\<close>

definition rooms_get :: "(code \<rightharpoonup> room) \<Rightarrow> string option \<Rightarrow> room option" where
  "rooms_get rs k = (case k of None \<Rightarrow> None | Some c \<Rightarrow> rs c)"

section \<open>The handlers\<close>

text \<open>\<open>io.on('connection')\<close>, lines 49-59.\<close>

definition connection :: "sid \<Rightarrow> int \<Rightarrow> state \<Rightarrow> outcome" where
  "connection sid now st =
     Returned (st\<lparr>players := (players st)(sid \<mapsto>
       \<lparr>pid = sid, name = Str ''Anonymous'', room = None, isPlayer1 = False,
        connectedAt = now\<rparr>)\<rparr>) []"

text \<open>
  \<open>set_name\<close>, lines 62-69. The name is stored first; the \<open>console.log\<close> of line 67
  then converts it to a string.
\<close>

definition set_name :: "sid \<Rightarrow> payload option \<Rightarrow> state \<Rightarrow> outcome" where
  "set_name sid data st =
     (case players st sid of
        None \<Rightarrow> Returned st []
      | Some player \<Rightarrow>
          (case data of
             None \<Rightarrow> Threw TypeError st []
           | Some d \<Rightarrow>
               let player' = player\<lparr>name :=
                     (if truthy (d_name d) then d_name d else Str ''Anonymous'')\<rparr>;
                   st' = st\<lparr>players := (players st)(sid \<mapsto> player')\<rparr>
               in if template_throws (name player') then Threw TypeError st' []
                  else Returned st' []))"

text \<open>
  \<open>create_room\<close>, lines 72-107; \<open>frames\<close> is what the call stack leaves to
  \<open>generateRoomCode\<close>. The \<open>console.log\<close> of line 100 converts the player's name
  after the maps are updated and the socket has joined the group, before the two
  emissions.
\<close>

definition create_room :: "sid \<Rightarrow> int \<Rightarrow> rand \<Rightarrow> nat \<Rightarrow> state \<Rightarrow> outcome" where
  "create_room sid now rnd frames st =
     (case players st sid of
        None \<Rightarrow> Returned st []
      | Some player \<Rightarrow>
          (case generateRoomCode frames (rooms st) rnd 0 of
             None \<Rightarrow> Threw RangeError st []
           | Some roomCode \<Rightarrow>
               let rm = \<lparr>code = roomCode, room_players = [sid],
                         gameState = \<lparr>player1Health = 100, player2Health = 100,
                           gameActive = False, currentTurn = Player1, roundN = 1,
                           player1Wins = 0, player2Wins = 0\<rparr>,
                         createdAt = now, lastActivity = now\<rparr>;
                   st' = st\<lparr>rooms := (rooms st)(roomCode \<mapsto> rm),
                            players := (players st)(sid \<mapsto>
                              player\<lparr>room := Some roomCode, isPlayer1 := True\<rparr>)\<rparr>
               in if template_throws (name player)
                  then Threw TypeError st' [Socket_join sid roomCode]
                  else Returned st'
                         [Socket_join sid roomCode,
                          Socket_emit sid (Room_created roomCode),
                          Io_to_emit roomCode (Player_joined (room_players rm) sid)]))"

text \<open>
  \<open>join_room\<close>, lines 110-140. The \<open>console.log\<close> of line 133 converts the player's
  name after the maps are updated and the socket has joined the group, before the two
  emissions.
\<close>

definition join_room :: "sid \<Rightarrow> int \<Rightarrow> payload option \<Rightarrow> state \<Rightarrow> outcome" where
  "join_room sid now data st =
     (case players st sid of
        None \<Rightarrow> Returned st []
      | Some player \<Rightarrow>
          (case data of
             None \<Rightarrow> Threw TypeError st []
           | Some d \<Rightarrow>
               (case d_roomCode d of
                  None \<Rightarrow> Returned st [Socket_emit sid Room_not_found]
                | Some c \<Rightarrow>
                    (case rooms st c of
                       None \<Rightarrow> Returned st [Socket_emit sid Room_not_found]
                     | Some rm \<Rightarrow>
                         if length (room_players rm) \<ge> 2
                         then Returned st [Socket_emit sid Room_full]
                         else
                           let rm' = rm\<lparr>room_players := room_players rm @ [sid],
                                         lastActivity := now\<rparr>;
                               st' = st\<lparr>rooms := (rooms st)(c \<mapsto> rm'),
                                        players := (players st)(sid \<mapsto>
                                          player\<lparr>room := Some c, isPlayer1 := False\<rparr>)\<rparr>
                           in if template_throws (name player)
                              then Threw TypeError st' [Socket_join sid c]
                              else Returned st'
                                     [Socket_join sid c,
                                      Socket_emit sid (Room_joined c),
                                      Io_to_emit c (Player_joined (room_players rm') sid)]))))"

text \<open>
  The end of \<open>leave_room\<close>, lines 169-171: the room field of the player is cleared,
  then \<open>socket.leave(data.roomCode)\<close> reads the payload.
\<close>

definition leave_room_end ::
    "sid \<Rightarrow> player \<Rightarrow> payload option \<Rightarrow> state \<Rightarrow> effect list \<Rightarrow> outcome" where
  "leave_room_end sid player data st out =
     (let st' = st\<lparr>players := (players st)(sid \<mapsto> player\<lparr>room := None\<rparr>)\<rparr>
      in case data of
           None \<Rightarrow> Threw TypeError st' out
         | Some d \<Rightarrow> Returned st' (out @ [Socket_leave sid (d_roomCode d)]))"

text \<open>
  \<open>leave_room\<close>, lines 143-172. \<open>!player.room\<close> holds for \<open>null\<close> and for the empty
  string. The \<open>console.log\<close> of line 160 converts the player's name after the player
  is removed from the list and \<open>player_left\<close> is emitted, before the game is reset and
  the room field cleared; the one of line 156 prints the room code, a string.
\<close>

definition leave_room :: "sid \<Rightarrow> int \<Rightarrow> payload option \<Rightarrow> state \<Rightarrow> outcome" where
  "leave_room sid now data st =
     (case players st sid of
        None \<Rightarrow> Returned st []
      | Some player \<Rightarrow>
          (case room player of
             None \<Rightarrow> Returned st []
           | Some pr \<Rightarrow>
               if pr = [] then Returned st []
               else
                 (case rooms st pr of
                    None \<Rightarrow> leave_room_end sid player data st []
                  | Some rm \<Rightarrow>
                      let rm1 = rm\<lparr>room_players := filter (\<lambda>p. p \<noteq> sid) (room_players rm),
                                    lastActivity := now\<rparr>
                      in if length (room_players rm1) = 0
                         then leave_room_end sid player data
                                (st\<lparr>rooms := (rooms st)(pr := None)\<rparr>) []
                         else if template_throws (name player)
                         then Threw TypeError (st\<lparr>rooms := (rooms st)(pr \<mapsto> rm1)\<rparr>)
                                [Io_to_emit pr (Player_left (room_players rm1))]
                         else leave_room_end sid player data
                                (st\<lparr>rooms := (rooms st)(pr \<mapsto> rm1\<lparr>gameState := (gameState rm1)
                                    \<lparr>gameActive := False,
                                     player1Health := 100,
                                     player2Health := 100\<rparr>\<rparr>)\<rparr>)
                                [Io_to_emit pr (Player_left (room_players rm1))])))"

text \<open>\<open>start_game\<close>, lines 175-191.\<close>

definition start_game :: "sid \<Rightarrow> int \<Rightarrow> payload option \<Rightarrow> state \<Rightarrow> outcome" where
  "start_game sid now data st =
     (case data of
        None \<Rightarrow> Threw TypeError st []
      | Some d \<Rightarrow>
          (case d_roomCode d of
             None \<Rightarrow> Returned st []
           | Some c \<Rightarrow>
               (case rooms st c of
                  None \<Rightarrow> Returned st []
                | Some rm \<Rightarrow>
                    if length (room_players rm) \<noteq> 2 then Returned st []
                    else
                      let rm' = rm\<lparr>gameState := (gameState rm)
                                     \<lparr>gameActive := True,
                                      player1Health := 100,
                                      player2Health := 100,
                                      currentTurn := Player1\<rparr>,
                                    lastActivity := now\<rparr>
                      in Returned (st\<lparr>rooms := (rooms st)(c \<mapsto> rm')\<rparr>)
                           [Io_to_emit c (Game_start (room_players rm') (gameState rm'))])))"

text \<open>The \<open>switch\<close> of \<open>game_action\<close>, lines 213-226; \<open>r\<close> is the value of \<open>Math.random()\<close>.\<close>

definition calcDamage :: "string option \<Rightarrow> rat \<Rightarrow> int" where
  "calcDamage action r =
     (if action = Some ''punch'' then \<lfloor>js_times r 15\<rfloor> + 5
      else if action = Some ''kick'' then \<lfloor>js_times r 20\<rfloor> + 10
      else if action = Some ''special'' then \<lfloor>js_times r 25\<rfloor> + 15
      else 10)"

text \<open>Lines 228-236: apply the damage and switch turns, both by the payload's label.\<close>

definition applyDamage :: "string option \<Rightarrow> int \<Rightarrow> gameState \<Rightarrow> gameState" where
  "applyDamage label damage g =
     (let g1 = (if label = Some ''player1''
                then g\<lparr>player2Health := max 0 (player2Health g - damage)\<rparr>
                else g\<lparr>player1Health := max 0 (player1Health g - damage)\<rparr>)
      in g1\<lparr>currentTurn := (if label = Some ''player1'' then Player2 else Player1)\<rparr>)"

text \<open>Lines 245-255: check for a winner.\<close>

definition checkWinner :: "gameState \<Rightarrow> seat option \<times> gameState" where
  "checkWinner g =
     (if player1Health g \<le> 0
      then (Some Player2, g\<lparr>player2Wins := player2Wins g + 1, gameActive := False\<rparr>)
      else if player2Health g \<le> 0
      then (Some Player1, g\<lparr>player1Wins := player1Wins g + 1, gameActive := False\<rparr>)
      else (None, g))"

text \<open>
  \<open>game_action\<close>, lines 194-270. \<open>room.players[0].id\<close> raises a TypeError when the
  array is empty.
\<close>

definition game_action :: "sid \<Rightarrow> int \<Rightarrow> rat \<Rightarrow> payload option \<Rightarrow> state \<Rightarrow> outcome" where
  "game_action sid now r data st =
     (case data of
        None \<Rightarrow> Threw TypeError st []
      | Some d \<Rightarrow>
          (case d_roomCode d of
             None \<Rightarrow> Returned st []
           | Some c \<Rightarrow>
               (case rooms st c of
                  None \<Rightarrow> Returned st []
                | Some rm \<Rightarrow>
                    if \<not> gameActive (gameState rm) then Returned st []
                    else
                      (case players st sid of
                         None \<Rightarrow> Returned st []
                       | Some player \<Rightarrow>
                           (case room_players rm of
                              [] \<Rightarrow> Threw TypeError st []
                            | p0 # ps \<Rightarrow>
                                let expectedTurn = (if p0 = sid then Player1 else Player2)
                                in if currentTurn (gameState rm) \<noteq> expectedTurn
                                   then Returned st [Socket_emit sid (Error ''Not your turn!'')]
                                   else
                                     let damage = calcDamage (d_action d) r;
                                         g = applyDamage (d_player d) damage (gameState rm);
                                         (winner, g') = checkWinner g
                                     in Returned
                                          (st\<lparr>rooms := (rooms st)(c \<mapsto>
                                             rm\<lparr>lastActivity := now, gameState := g'\<rparr>)\<rparr>)
                                          [Io_to_emit c (Game_action_msg (d_action d) (d_player d) damage),
                                           Io_to_emit c (Game_update (player1Health g') (player2Health g')
                                             (currentTurn g') winner (player1Wins g') (player2Wins g'))])))))"

text \<open>\<open>restart_game\<close>, lines 273-290.\<close>

definition restart_game :: "sid \<Rightarrow> int \<Rightarrow> payload option \<Rightarrow> state \<Rightarrow> outcome" where
  "restart_game sid now data st =
     (case data of
        None \<Rightarrow> Threw TypeError st []
      | Some d \<Rightarrow>
          (case d_roomCode d of
             None \<Rightarrow> Returned st []
           | Some c \<Rightarrow>
               (case rooms st c of
                  None \<Rightarrow> Returned st []
                | Some rm \<Rightarrow>
                    if length (room_players rm) \<noteq> 2 then Returned st []
                    else
                      let rm' = rm\<lparr>gameState := (gameState rm)
                                     \<lparr>player1Health := 100,
                                      player2Health := 100,
                                      gameActive := True,
                                      currentTurn := Player1,
                                      roundN := roundN (gameState rm) + 1\<rparr>,
                                    lastActivity := now\<rparr>
                      in Returned (st\<lparr>rooms := (rooms st)(c \<mapsto> rm')\<rparr>)
                           [Io_to_emit c (Game_start (room_players rm') (gameState rm'))])))"

text \<open>
  \<open>disconnect\<close>, lines 293-320. The \<open>console.log\<close> of line 311 converts the player's
  name after the player is removed from the list and \<open>player_left\<close> is emitted, before
  the active flag is cleared and the player unregistered.
\<close>

definition disconnect :: "sid \<Rightarrow> int \<Rightarrow> state \<Rightarrow> outcome" where
  "disconnect sid now st =
     (case players st sid of
        None \<Rightarrow> Returned (st\<lparr>players := (players st)(sid := None)\<rparr>) []
      | Some player \<Rightarrow>
          (case room player of
             None \<Rightarrow> Returned (st\<lparr>players := (players st)(sid := None)\<rparr>) []
           | Some pr \<Rightarrow>
               if pr = [] then Returned (st\<lparr>players := (players st)(sid := None)\<rparr>) []
               else
                 (case rooms st pr of
                    None \<Rightarrow> Returned (st\<lparr>players := (players st)(sid := None)\<rparr>) []
                  | Some rm \<Rightarrow>
                      let rm1 = rm\<lparr>room_players := filter (\<lambda>p. p \<noteq> sid) (room_players rm),
                                    lastActivity := now\<rparr>
                      in if length (room_players rm1) = 0
                         then Returned (st\<lparr>rooms := (rooms st)(pr := None),
                                           players := (players st)(sid := None)\<rparr>) []
                         else if template_throws (name player)
                         then Threw TypeError (st\<lparr>rooms := (rooms st)(pr \<mapsto> rm1)\<rparr>)
                                [Io_to_emit pr (Player_left (room_players rm1))]
                         else Returned
                                (st\<lparr>rooms := (rooms st)(pr \<mapsto> rm1\<lparr>gameState := (gameState rm1)
                                      \<lparr>gameActive := False\<rparr>\<rparr>),
                                    players := (players st)(sid := None)\<rparr>)
                                [Io_to_emit pr (Player_left (room_players rm1))])))"

text \<open>The periodic clean-up of \<open>setInterval\<close>, lines 23-31.\<close>

definition sweep :: "int \<Rightarrow> state \<Rightarrow> outcome" where
  "sweep now st =
     Returned (st\<lparr>rooms := (\<lambda>c.
       case rooms st c of
         None \<Rightarrow> None
       | Some rm \<Rightarrow>
           if length (room_players rm) = 0 \<and> now - lastActivity rm > 5 * 60 * 1000
           then None else Some rm)\<rparr>) []"

section \<open>Sequences of events\<close>

datatype event =
    Connection sid int
  | Set_name sid "payload option"
  | Create_room sid int rand nat
  | Join_room sid int "payload option"
  | Leave_room sid int "payload option"
  | Start_game sid int "payload option"
  | Game_action sid int rat "payload option"
  | Restart_game sid int "payload option"
  | Disconnect sid int
  | Sweep int

fun handle :: "event \<Rightarrow> state \<Rightarrow> outcome" where
  "handle (Connection sid now) st = connection sid now st"
| "handle (Set_name sid data) st = set_name sid data st"
| "handle (Create_room sid now rnd frames) st = create_room sid now rnd frames st"
| "handle (Join_room sid now data) st = join_room sid now data st"
| "handle (Leave_room sid now data) st = leave_room sid now data st"
| "handle (Start_game sid now data) st = start_game sid now data st"
| "handle (Game_action sid now r data) st = game_action sid now r data st"
| "handle (Restart_game sid now data) st = restart_game sid now data st"
| "handle (Disconnect sid now) st = disconnect sid now st"
| "handle (Sweep now) st = sweep now st"

text \<open>The state when the module is loaded: both maps empty.\<close>

definition init :: state where
  "init = \<lparr>rooms = Map.empty, players = Map.empty\<rparr>"

text \<open>The state after a sequence of events, each handled to its end, one at a time.\<close>

fun run :: "state \<Rightarrow> event list \<Rightarrow> state" where
  "run st [] = st"
| "run st (e # es) = run (state_of (handle e st)) es"


section \<open>Vocabulary of the properties\<close>

text \<open>
  The seat an accepted action is resolved for is read from the payload's label
  (\<open>data.player === 'player1'\<close>, lines 229 and 236); the defender is the other seat.
\<close>

fun acting_seat :: "string option \<Rightarrow> seat" where
  "acting_seat label = (if label = Some ''player1'' then Player1 else Player2)"

fun opponent :: "seat \<Rightarrow> seat" where
  "opponent Player1 = Player2"
| "opponent Player2 = Player1"

fun health :: "seat \<Rightarrow> gameState \<Rightarrow> int" where
  "health Player1 g = player1Health g"
| "health Player2 g = player2Health g"

fun wins :: "seat \<Rightarrow> gameState \<Rightarrow> int" where
  "wins Player1 g = player1Wins g"
| "wins Player2 g = player2Wins g"

text \<open>The seat of a connection in a room, as the turn check derives it (lines 202-203).\<close>

fun seat_of :: "sid \<Rightarrow> sid list \<Rightarrow> seat" where
  "seat_of sid (p0 # ps) = (if p0 = sid then Player1 else Player2)"
| "seat_of sid [] = Player2"

text \<open>An event whose payload, if it takes one, is an object.\<close>

fun has_payload :: "event \<Rightarrow> bool" where
  "has_payload (Set_name sid data) = (data \<noteq> None)"
| "has_payload (Join_room sid now data) = (data \<noteq> None)"
| "has_payload (Leave_room sid now data) = (data \<noteq> None)"
| "has_payload (Start_game sid now data) = (data \<noteq> None)"
| "has_payload (Game_action sid now r data) = (data \<noteq> None)"
| "has_payload (Restart_game sid now data) = (data \<noteq> None)"
| "has_payload (Connection sid now) = True"
| "has_payload (Create_room sid now rnd frames) = True"
| "has_payload (Disconnect sid now) = True"
| "has_payload (Sweep now) = True"

text \<open>
  The retry of \<open>generateRoomCode\<close> finds a free code within the frames it is given,
  where the event runs it.
\<close>

fun generation_returns :: "event \<Rightarrow> state \<Rightarrow> bool" where
  "generation_returns (Create_room sid now rnd frames) st =
     (generateRoomCode frames (rooms st) rnd 0 \<noteq> None)"
| "generation_returns (Connection sid now) st = True"
| "generation_returns (Set_name sid data) st = True"
| "generation_returns (Join_room sid now data) st = True"
| "generation_returns (Leave_room sid now data) st = True"
| "generation_returns (Start_game sid now data) st = True"
| "generation_returns (Game_action sid now r data) st = True"
| "generation_returns (Restart_game sid now data) st = True"
| "generation_returns (Disconnect sid now) st = True"
| "generation_returns (Sweep now) st = True"

text \<open>What holds of every room of the store after any sequence of events.\<close>

definition room_ok :: "room \<Rightarrow> bool" where
  "room_ok rm =
     (room_players rm \<noteq> [] \<and> length (room_players rm) \<le> 2 \<and>
      (gameActive (gameState rm) \<longrightarrow>
         0 < player1Health (gameState rm) \<and> 0 < player2Health (gameState rm)))"

definition rooms_ok :: "state \<Rightarrow> bool" where
  "rooms_ok st = (\<forall>c rm. rooms st c = Some rm \<longrightarrow> room_ok rm)"

text \<open>
  Every registered name has a string form; an event that does not store a name without
  one.
\<close>

definition names_ok :: "state \<Rightarrow> bool" where
  "names_ok st = (\<forall>sid p. players st sid = Some p \<longrightarrow> \<not> template_throws (name p))"

fun printable_event :: "event \<Rightarrow> bool" where
  "printable_event (Set_name sid data) =
     (case data of None \<Rightarrow> True | Some d \<Rightarrow> \<not> template_throws (d_name d))"
| "printable_event (Connection sid now) = True"
| "printable_event (Create_room sid now rnd frames) = True"
| "printable_event (Join_room sid now data) = True"
| "printable_event (Leave_room sid now data) = True"
| "printable_event (Start_game sid now data) = True"
| "printable_event (Game_action sid now r data) = True"
| "printable_event (Restart_game sid now data) = True"
| "printable_event (Disconnect sid now) = True"
| "printable_event (Sweep now) = True"

subsection \<open>Sessions used for the concrete instances\<close>

text \<open>
  Two connections; the first creates a room (every call of \<open>Math.random()\<close> returns
  1/2, which draws the code NNNN; the call stack leaves 10000 frames), the second joins
  it, the first starts the game.
\<close>

definition half :: rand where
  "half = (\<lambda>k. 1 / 2)"

definition to_room :: "code \<Rightarrow> payload" where
  "to_room c = \<lparr>d_name = Falsy, d_roomCode = Some c, d_player = None, d_action = None\<rparr>"

definition action :: "code \<Rightarrow> string \<Rightarrow> string \<Rightarrow> payload" where
  "action c label kind =
     \<lparr>d_name = Falsy, d_roomCode = Some c, d_player = Some label, d_action = Some kind\<rparr>"

definition named :: "jsval \<Rightarrow> payload" where
  "named v = \<lparr>d_name = v, d_roomCode = None, d_player = None, d_action = None\<rparr>"

definition lobby :: "event list" where
  "lobby =
     [Connection ''s1'' 1, Connection ''s2'' 2, Create_room ''s1'' 3 half 10000,
      Join_room ''s2'' 4 (Some (to_room ''NNNN''))]"

definition started :: "event list" where
  "started = lobby @ [Start_game ''s1'' 5 (Some (to_room ''NNNN''))]"

text \<open>The first seat has hit once with a punch (12 damage at 1/2).\<close>

definition midgame :: "event list" where
  "midgame = started @ [Game_action ''s1'' 6 (1 / 2) (Some (action ''NNNN'' ''player1'' ''punch''))]"

text \<open>
  A sequence of draws whose first attempt is NNNN and whose second is AAAA, and one
  whose first \<open>n\<close> attempts are NNNN and whose later ones are AAAA.
\<close>

definition retry :: rand where
  "retry = (\<lambda>k. if k < 4 then 1 / 2 else 0)"

definition colliding :: "nat \<Rightarrow> rand" where
  "colliding n = (\<lambda>k. if k < 4 * n then 1 / 2 else 0)"

text \<open>
  A round played to its last blow: the first seat hits twice with a special (39 damage
  at 63/64), the second answers with an unknown action kind (10 damage); the second
  seat is left with 22.
\<close>

definition endgame :: "event list" where
  "endgame = started @
     [Game_action ''s1'' 6 (63 / 64) (Some (action ''NNNN'' ''player1'' ''special'')),
      Game_action ''s2'' 7 0 (Some (action ''NNNN'' ''player2'' ''block'')),
      Game_action ''s1'' 8 (63 / 64) (Some (action ''NNNN'' ''player1'' ''special'')),
      Game_action ''s2'' 9 0 (Some (action ''NNNN'' ''player2'' ''block''))]"

text \<open>
  The first seat, holding the turn, sends twice a special with the label of the other
  seat: it is its own health that drops to 22, and the turn stays with it.
\<close>

definition selfhits :: "event list" where
  "selfhits = started @
     [Game_action ''s1'' 6 (63 / 64) (Some (action ''NNNN'' ''player2'' ''special'')),
      Game_action ''s1'' 7 (63 / 64) (Some (action ''NNNN'' ''player2'' ''special''))]"

section \<open>Rounding to a double\<close>

lemma expo_le: "expo p e \<le> e"
proof (induction p e rule: expo.induct)
  case (1 p e)
  show ?case
  proof (cases "e \<le> - 1022 \<or> 2 powi e \<le> p")
    case True
    then show ?thesis by (subst expo.simps) simp
  next
    case False
    with 1 have "expo p (e - 1) \<le> e - 1" by simp
    with False show ?thesis by (subst expo.simps) simp
  qed
qed

lemma expo_ge: "- 1022 \<le> e \<Longrightarrow> - 1022 \<le> expo p e"
proof (induction p e rule: expo.induct)
  case (1 p e)
  show ?case
  proof (cases "e \<le> - 1022 \<or> 2 powi e \<le> p")
    case True
    with 1(2) show ?thesis by (subst expo.simps) simp
  next
    case False
    with 1 have "- 1022 \<le> expo p (e - 1)" by simp
    with False show ?thesis by (subst expo.simps) simp
  qed
qed

lemma expo_low: "expo p e \<le> - 1022 \<or> 2 powi (expo p e) \<le> p"
proof (induction p e rule: expo.induct)
  case (1 p e)
  show ?case
  proof (cases "e \<le> - 1022 \<or> 2 powi e \<le> p")
    case True
    then show ?thesis by (subst (1 2) expo.simps) auto
  next
    case False
    with 1 have "expo p (e - 1) \<le> - 1022 \<or> 2 powi (expo p (e - 1)) \<le> p" by simp
    with False show ?thesis by (subst (1 2) expo.simps) simp
  qed
qed

lemma expo_high: "expo p e < e' \<Longrightarrow> e' \<le> e \<Longrightarrow> p < 2 powi e'"
proof (induction p e rule: expo.induct)
  case (1 p e)
  show ?case
  proof (cases "e \<le> - 1022 \<or> 2 powi e \<le> p")
    case True
    then have "expo p e = e" by (subst expo.simps) simp
    with 1(2,3) show ?thesis by simp
  next
    case False
    then have eq: "expo p e = expo p (e - 1)" by (subst expo.simps) simp
    show ?thesis
    proof (cases "e' = e")
      case True
      with False show ?thesis by simp
    next
      case False': False
      with 1(3) have "e' \<le> e - 1" by simp
      moreover from 1(2) eq have "expo p (e - 1) < e'" by simp
      ultimately show ?thesis using 1(1) False by blast
    qed
  qed
qed

lemma expo_eq:
  assumes "- 1022 \<le> e" "e \<le> e0" "2 powi e \<le> p" "p < 2 powi (e + 1)"
  shows "expo p e0 = e"
proof (rule antisym)
  show "expo p e0 \<le> e"
  proof (rule ccontr)
    assume "\<not> expo p e0 \<le> e"
    then have gt: "e + 1 \<le> expo p e0" by simp
    with assms(1) have "\<not> expo p e0 \<le> - 1022" by simp
    with expo_low [of p e0] have "2 powi (expo p e0) \<le> p" by simp
    moreover have "(2::rat) powi (e + 1) \<le> 2 powi (expo p e0)"
      using gt by (intro power_int_increasing) simp_all
    ultimately show False using assms(4) by simp
  qed
  show "e \<le> expo p e0"
  proof (rule ccontr)
    assume "\<not> e \<le> expo p e0"
    then have "expo p e0 < e" by simp
    from expo_high [OF this assms(2)] assms(3) show False by simp
  qed
qed

lemma expo_below:
  assumes "p < 2 powi E" "- 1021 \<le> E"
  shows "expo p e0 < E"
proof (rule ccontr)
  assume "\<not> expo p e0 < E"
  then have ge: "E \<le> expo p e0" by simp
  with assms(2) have "\<not> expo p e0 \<le> - 1022" by simp
  with expo_low [of p e0] have "2 powi (expo p e0) \<le> p" by simp
  moreover have "(2::rat) powi E \<le> 2 powi (expo p e0)"
    using ge by (intro power_int_increasing) simp_all
  ultimately show False using assms(1) by simp
qed

lemma rne_cases:
  "rne x = \<lfloor>x\<rfloor> \<and> x - of_int \<lfloor>x\<rfloor> \<le> 1 / 2
   \<or> rne x = \<lfloor>x\<rfloor> + 1 \<and> 1 / 2 \<le> x - of_int \<lfloor>x\<rfloor>"
  by (auto simp: rne_def Let_def)

lemma rne_near: "of_int (rne x) \<le> x + 1 / 2 \<and> x - 1 / 2 \<le> of_int (rne x)"
proof -
  define f where "f = \<lfloor>x\<rfloor>"
  have a: "of_int f \<le> x" "x < of_int f + 1" unfolding f_def by linarith+
  from rne_cases [of x] have "rne x = f \<and> x - of_int f \<le> 1 / 2
      \<or> rne x = f + 1 \<and> 1 / 2 \<le> x - of_int f"
    by (simp add: f_def)
  then show ?thesis
  proof
    assume "rne x = f \<and> x - of_int f \<le> 1 / 2"
    with a show ?thesis by simp
  next
    assume "rne x = f + 1 \<and> 1 / 2 \<le> x - of_int f"
    with a show ?thesis by simp
  qed
qed

lemma rne_of_int [simp]: "rne (of_int N) = N"
  by (simp add: rne_def)

lemma rne_ge: "of_int N \<le> x \<Longrightarrow> N \<le> rne x"
proof -
  assume "of_int N \<le> x"
  then have "N \<le> \<lfloor>x\<rfloor>" by (simp add: le_floor_iff)
  moreover have "\<lfloor>x\<rfloor> \<le> rne x" by (simp add: rne_def Let_def)
  ultimately show ?thesis by simp
qed

lemma rne_le: "x \<le> of_int N \<Longrightarrow> rne x \<le> N"
proof (cases "x = of_int N")
  case True
  then show ?thesis by simp
next
  case False
  assume "x \<le> of_int N"
  with False have "x < of_int N" by simp
  then have "\<lfloor>x\<rfloor> < N" by (simp add: floor_less_iff)
  moreover have "rne x \<le> \<lfloor>x\<rfloor> + 1" by (simp add: rne_def Let_def)
  ultimately show ?thesis by simp
qed

lemma rne_less: "x < of_int N - 1 / 2 \<Longrightarrow> rne x \<le> N - 1"
proof -
  assume a: "x < of_int N - 1 / 2"
  then have "x < of_int N" by simp
  then have fl: "\<lfloor>x\<rfloor> \<le> N - 1" by (simp add: floor_less_iff)
  show ?thesis
  proof (cases "\<lfloor>x\<rfloor> = N - 1")
    case True
    with a have "x - of_int \<lfloor>x\<rfloor> < 1 / 2" by simp
    then show ?thesis using True by (simp add: rne_def Let_def)
  next
    case False
    with fl have "\<lfloor>x\<rfloor> + 1 \<le> N - 1" by simp
    moreover have "rne x \<le> \<lfloor>x\<rfloor> + 1" by (simp add: rne_def Let_def)
    ultimately show ?thesis by simp
  qed
qed


lemma fl_pos_eq:
  "fl_pos p = of_int (rne (p * 2 powi (52 - expo p 1023))) * 2 powi (expo p 1023 - 52)"
proof -
  have "(2::rat) powi (expo p 1023 - 52) = 1 / 2 powi (52 - expo p 1023)"
    by (simp add: power_int_diff)
  then have "p / 2 powi (expo p 1023 - 52) = p * 2 powi (52 - expo p 1023)" by simp
  then show ?thesis by (simp add: fl_pos_def Let_def)
qed

lemma fl_pos_near:
  assumes "0 < p"
  shows "\<bar>fl_pos p - p\<bar> \<le> 2 powi (expo p 1023 - 53)"
proof -
  define e where "e = expo p 1023"
  define q :: rat where "q = 2 powi (e - 52)"
  have q: "0 < q" by (simp add: q_def)
  have half: "q / 2 = 2 powi (e - 53)"
    using power_int_diff [of "2::rat" "e - 52" 1] by (simp add: q_def)
  have f: "fl_pos p = of_int (rne (p / q)) * q" by (simp add: fl_pos_def Let_def q_def e_def)
  from rne_near [of "p / q"] have "\<bar>of_int (rne (p / q)) - p / q\<bar> \<le> 1 / 2" by linarith
  then have "\<bar>of_int (rne (p / q)) - p / q\<bar> * q \<le> 1 / 2 * q"
    using q by (intro mult_right_mono) simp_all
  moreover have "\<bar>of_int (rne (p / q)) - p / q\<bar> * q = \<bar>(of_int (rne (p / q)) - p / q) * q\<bar>"
    using q by (simp add: abs_mult)
  moreover have "(of_int (rne (p / q)) - p / q) * q = of_int (rne (p / q)) * q - p"
    using q by (simp add: left_diff_distrib)
  ultimately show ?thesis using f half by (simp add: e_def)
qed

lemma grid_int:
  assumes "e \<le> 52"
  shows "\<exists>M::int. 0 < M \<and> (2::rat) powi (52 - e) = of_int M
           \<and> (2::rat) powi (e - 52) = 1 / of_int M"
proof -
  have "(2::rat) powi (52 - e) = 2 ^ nat (52 - e)" using assms by (simp add: power_int_def)
  moreover have "(2::rat) powi (e - 52) = 1 / 2 powi (52 - e)" by (simp add: power_int_diff)
  ultimately show ?thesis by (intro exI [of _ "2 ^ nat (52 - e)"]) simp
qed

lemma fl_pos_ge_int:
  assumes "0 < p" "p < 2 powi 53" "of_int j \<le> p"
  shows "of_int j \<le> fl_pos p"
proof -
  have "expo p 1023 < 53" using assms(2) by (rule expo_below) simp
  then have "expo p 1023 \<le> 52" by simp
  from grid_int [OF this] obtain M :: int where M: "0 < M"
    "(2::rat) powi (52 - expo p 1023) = of_int M"
    "(2::rat) powi (expo p 1023 - 52) = 1 / of_int M"
    by blast
  have "of_int (j * M) \<le> p * of_int M" using assms(3) M(1) by simp
  then have "j * M \<le> rne (p * of_int M)" by (rule rne_ge)
  then have "of_int (j * M) \<le> (of_int (rne (p * of_int M)) :: rat)" by (simp only: of_int_le_iff)
  then have "of_int j \<le> (of_int (rne (p * of_int M)) :: rat) / of_int M"
    using M(1) by (simp add: pos_le_divide_eq)
  then show ?thesis by (simp add: fl_pos_eq M)
qed

lemma fl_pos_le_int:
  assumes "0 < p" "p < 2 powi 53" "p \<le> of_int j"
  shows "fl_pos p \<le> of_int j"
proof -
  have "expo p 1023 < 53" using assms(2) by (rule expo_below) simp
  then have "expo p 1023 \<le> 52" by simp
  from grid_int [OF this] obtain M :: int where M: "0 < M"
    "(2::rat) powi (52 - expo p 1023) = of_int M"
    "(2::rat) powi (expo p 1023 - 52) = 1 / of_int M"
    by blast
  have "p * of_int M \<le> of_int (j * M)" using assms(3) M(1) by simp
  then have "rne (p * of_int M) \<le> j * M" by (rule rne_le)
  then have "(of_int (rne (p * of_int M)) :: rat) \<le> of_int (j * M)" by (simp only: of_int_le_iff)
  then have "(of_int (rne (p * of_int M)) :: rat) / of_int M \<le> of_int j"
    using M(1) by (simp add: pos_divide_le_eq)
  then show ?thesis by (simp add: fl_pos_eq M)
qed

lemma fl_pos_grid:
  assumes "p < 2 powi E" "- 1021 \<le> E" "E \<le> 53"
  shows "\<exists>M::int. of_int (2 ^ nat (53 - E)) \<le> (of_int M :: rat) \<and> 0 < M
           \<and> fl_pos p = of_int (rne (p * of_int M)) / of_int M"
proof -
  have e: "expo p 1023 < E" using assms(1,2) by (rule expo_below)
  then have "expo p 1023 \<le> 52" using assms(3) by simp
  from grid_int [OF this] obtain M :: int where M: "0 < M"
    "(2::rat) powi (52 - expo p 1023) = of_int M"
    "(2::rat) powi (expo p 1023 - 52) = 1 / of_int M"
    by blast
  have "(2::rat) powi (53 - E) \<le> 2 powi (52 - expo p 1023)"
    using e by (intro power_int_increasing) simp_all
  moreover have "(2::rat) powi (53 - E) = of_int (2 ^ nat (53 - E))"
    using assms(3) by (simp add: power_int_def)
  ultimately have "of_int (2 ^ nat (53 - E)) \<le> (of_int M :: rat)" using M(2) by simp
  moreover have "fl_pos p = of_int (rne (p * of_int M)) / of_int M"
    by (simp add: fl_pos_eq M)
  ultimately show ?thesis using M(1) by blast
qed

lemma fl_binade:
  assumes "- 1022 \<le> e" "e \<le> 1023" "2 powi e \<le> p" "p < 2 powi (e + 1)"
  shows "fl p = of_int (rne (p * 2 powi (52 - e))) * 2 powi (e - 52)"
proof -
  have "0 < (2::rat) powi e" by simp
  with assms(3) have pos: "0 < p" by linarith
  have "expo p 1023 = e" using assms by (intro expo_eq)
  with pos show ?thesis by (simp add: fl_def fl_pos_eq)
qed

lemma double_top:
  assumes "is_double r" "0 \<le> r" "r < 1"
  shows "r \<le> 1 - 1 / 2 ^ 53"
proof (cases "r < 1 / 2")
  case True
  have "(1::rat) / 2 \<le> 1 - 1 / 2 ^ 53" by simp
  with True show ?thesis by linarith
next
  case False
  then have lo: "2 powi (- 1) \<le> r" by (simp add: power_int_minus)
  have hi: "r < 2 powi (- 1 + 1)" using assms(3) by simp
  define T :: rat where "T = 2 ^ 53"
  have T: "0 < T" by (simp add: T_def)
  have up: "(2::rat) powi (52 - (- 1)) = T" by (simp add: T_def)
  have "(2::rat) powi (- 53) = 1 / 2 powi 53" by (rule power_int_minus_divide)
  then have down: "(2::rat) powi (- 1 - 52) = 1 / T" by (simp add: T_def)
  have "fl r = of_int (rne (r * 2 powi (52 - (- 1)))) * 2 powi (- 1 - 52)"
    using lo hi by (intro fl_binade) simp_all
  then have f: "fl r = of_int (rne (r * T)) * (1 / T)"
    unfolding up down .
  define K where "K = rne (r * T)"
  from f assms(1) have r: "r = of_int K / T" by (simp add: is_double_def K_def)
  with assms(3) T have "of_int K < T" by (simp add: pos_divide_less_eq)
  then have "(of_int K :: rat) < of_int (2 ^ 53)" by (simp add: T_def)
  then have "K < 2 ^ 53" by (simp only: of_int_less_iff)
  then have "K \<le> 2 ^ 53 - 1" by simp
  then have "(of_int K :: rat) \<le> of_int (2 ^ 53 - 1)" by (simp only: of_int_le_iff)
  then have "(of_int K :: rat) \<le> T - 1" by (simp add: T_def)
  then have "r \<le> (T - 1) / T" using T r by (simp add: divide_right_mono)
  also have "\<dots> = 1 - 1 / T" using T by (simp add: diff_divide_distrib)
  finally show ?thesis by (simp only: T_def)
qed

lemma scaled_bound:
  assumes "is_double r" "0 \<le> r" "r < 1" "2 ^ E < n" "n < 2 ^ (E + 1)" "E \<le> 51"
  shows "0 \<le> fl (r * of_int n) \<and> fl (r * of_int n) < of_int n"
proof (cases "r = 0")
  case True
  have "(0::int) < 2 ^ E" by simp
  with assms(4) have "0 < n" by linarith
  with True show ?thesis by (simp add: fl_def)
next
  case False
  have n: "0 < n"
  proof -
    have "(0::int) < 2 ^ E" by simp
    with assms(4) show ?thesis by linarith
  qed
  define p where "p = r * of_int n"
  have pos: "0 < p" using False assms(2) n by (simp add: p_def)
  have top: "r \<le> 1 - 1 / 2 ^ 53" using assms(1-3) by (rule double_top)
  have pn: "p \<le> of_int n - of_int n / 2 ^ 53"
  proof -
    have "r * of_int n \<le> (1 - 1 / 2 ^ 53) * of_int n"
      using top n by (intro mult_right_mono) simp_all
    then show ?thesis by (simp add: p_def left_diff_distrib)
  qed
  have "p < of_int n" using pn n by (simp add: p_def)
  also have "(of_int n :: rat) < of_int (2 ^ (E + 1))" using assms(5) by (simp only: of_int_less_iff)
  also have "(of_int (2 ^ (E + 1)) :: rat) = 2 powi (int E + 1)"
    by (simp add: power_int_def nat_add_distrib)
  finally have pE: "p < 2 powi (int E + 1)" .
  from fl_pos_grid [OF pE] assms(6) obtain M :: int where
    M: "of_int (2 ^ nat (53 - (int E + 1))) \<le> (of_int M :: rat)" "0 < M"
      "fl_pos p = of_int (rne (p * of_int M)) / of_int M"
    by auto
  have lower: "0 \<le> fl_pos p"
  proof -
    have "(0::int) \<le> rne (p * of_int M)" using pos M(2) by (intro rne_ge) simp
    then show ?thesis using M(2,3) by simp
  qed
  have half: "1 / 2 < of_int n * (of_int M :: rat) / 2 ^ 53"
  proof -
    have "nat (53 - (int E + 1)) = 52 - E" using assms(6) by simp
    with M(1) have "(2::rat) ^ (52 - E) \<le> of_int M" by simp
    moreover have "(2::rat) ^ E < of_int n"
      using assms(4) by (metis of_int_less_iff of_int_numeral of_int_power)
    ultimately have prod: "(2::rat) ^ E * 2 ^ (52 - E) < of_int n * of_int M"
      by (intro mult_less_le_imp_less) simp_all
    have pw: "(2::rat) ^ E * 2 ^ (52 - E) = 2 ^ 52"
      using assms(6) by (simp add: power_add [symmetric])
    from prod [unfolded pw] have p52: "(2::rat) ^ 52 < of_int n * of_int M" .
    have lt: "(2::rat) ^ 52 / 2 ^ 53 < of_int n * of_int M / 2 ^ 53"
      by (rule divide_strict_right_mono [OF p52]) simp
    have h: "(2::rat) ^ 52 / 2 ^ 53 = 1 / 2" by simp
    from lt [unfolded h] show ?thesis .
  qed
  have "p * of_int M \<le> (of_int n - of_int n / 2 ^ 53) * of_int M"
    using pn M(2) by (intro mult_right_mono) simp_all
  also have "\<dots> = of_int (n * M) - of_int n * of_int M / 2 ^ 53"
    by (simp add: left_diff_distrib)
  also have "\<dots> < of_int (n * M) - 1 / 2" using half by linarith
  finally have "rne (p * of_int M) \<le> n * M - 1" by (rule rne_less)
  then have "(of_int (rne (p * of_int M)) :: rat) \<le> of_int (n * M - 1)"
    by (simp only: of_int_le_iff)
  then have "fl_pos p \<le> of_int (n * M - 1) / of_int M"
    using M(2,3) by (simp add: divide_right_mono)
  also have "\<dots> = of_int n - 1 / of_int M" using M(2) by (simp add: diff_divide_distrib)
  also have "\<dots> < of_int n" using M(2) by simp
  finally have "fl_pos p < of_int n" .
  with lower pos show ?thesis by (simp add: fl_def p_def)
qed

lemma fl_dyadic:
  assumes "0 < a" "a < 2 ^ 53" "k \<le> 1074"
  shows "fl (of_int a / 2 ^ k) = of_int a / 2 ^ k"
proof -
  define p :: rat where "p = of_int a / 2 ^ k"
  have pos: "0 < p" using assms(1) by (simp add: p_def)
  have "(of_int a :: rat) < 2 ^ 53"
    using assms(2) by (metis of_int_less_iff of_int_numeral of_int_power)
  then have "p < 2 ^ 53 / 2 ^ k" by (simp add: p_def divide_strict_right_mono)
  also have "(2::rat) ^ 53 / 2 ^ k = 2 powi (53 - int k)"
    by (simp add: power_int_diff)
  finally have lt: "p < 2 powi (53 - int k)" .
  have e: "expo p 1023 < 53 - int k" using lt by (rule expo_below) (use assms(3) in simp)
  have ge: "- 1022 \<le> expo p 1023" by (rule expo_ge) simp
  define m where "m = nat (52 - int k - expo p 1023)"
  have m: "int m = 52 - int k - expo p 1023" using e by (simp add: m_def)
  have "(2::rat) powi (52 - expo p 1023) = 2 powi (int k + int m)" using m by simp
  also have "\<dots> = 2 ^ k * 2 ^ m" by (simp add: power_int_add)
  finally have up: "(2::rat) powi (52 - expo p 1023) = 2 ^ k * 2 ^ m" .
  have down: "(2::rat) powi (expo p 1023 - 52) = 1 / (2 ^ k * 2 ^ m)"
    using up power_int_diff [of "2::rat" 0 "52 - expo p 1023"] by simp
  have "p * (2 ^ k * 2 ^ m) = of_int (a * 2 ^ m)" by (simp add: p_def)
  then have "rne (p * (2 ^ k * 2 ^ m)) = a * 2 ^ m" by (simp only: rne_of_int)
  then have "fl_pos p = of_int (a * 2 ^ m) / (2 ^ k * 2 ^ m)"
    by (simp add: fl_pos_eq up down)
  also have "\<dots> = p" by (simp add: p_def)
  finally show ?thesis using pos by (simp add: fl_def p_def)
qed

lemma floor_rat_numeral [simp]:
  "\<lfloor>numeral a / numeral b :: rat\<rfloor> = numeral a div numeral b"
  by (metis floor_divide_of_int_eq of_int_numeral)

lemma fl_ge_int:
  assumes "0 \<le> p" "p < 2 ^ 53" "of_int j \<le> p"
  shows "of_int j \<le> fl p"
proof (cases "p = 0")
  case True
  with assms(3) show ?thesis by (simp add: fl_def)
next
  case False
  with assms(1) have "0 < p" by simp
  moreover have "p < 2 powi 53" using assms(2) by simp
  ultimately show ?thesis using assms(3) by (simp add: fl_def fl_pos_ge_int)
qed

lemma fl_le_int:
  assumes "0 \<le> p" "p < 2 ^ 53" "p \<le> of_int j"
  shows "fl p \<le> of_int j"
proof (cases "p = 0")
  case True
  with assms(3) show ?thesis by (simp add: fl_def)
next
  case False
  with assms(1) have "0 < p" by simp
  moreover have "p < 2 powi 53" using assms(2) by simp
  ultimately show ?thesis using assms(3) by (simp add: fl_def fl_pos_le_int)
qed

lemma fl_near:
  assumes "0 \<le> p" "p < 32"
  shows "\<bar>fl p - p\<bar> \<le> 1 / 2 ^ 49"
proof (cases "p = 0")
  case True
  then show ?thesis by (simp add: fl_def)
next
  case False
  with assms(1) have pos: "0 < p" by simp
  have "p < 2 powi 5" using assms(2) by simp
  then have "expo p 1023 < 5" by (rule expo_below) simp
  then have "(2::rat) powi (expo p 1023 - 53) \<le> 2 powi (- 49)"
    by (intro power_int_increasing) simp_all
  moreover have "(2::rat) powi (- 49) = 1 / 2 powi 49" by (rule power_int_minus_divide)
  ultimately have "(2::rat) powi (expo p 1023 - 53) \<le> 1 / 2 ^ 49" by simp
  with fl_pos_near [OF pos] pos show ?thesis by (simp add: fl_def)
qed

lemma floor_fl_interval:
  assumes "0 \<le> p" "p < 32"
  shows "(of_int j \<le> p \<and> p < of_int j + 1 - 1 / 2 ^ 49 \<longrightarrow> \<lfloor>fl p\<rfloor> = j)
       \<and> (\<lfloor>fl p\<rfloor> = j \<longrightarrow> of_int j - 1 / 2 ^ 49 \<le> p \<and> p < of_int j + 1)"
proof (intro conjI impI)
  have lt: "p < 2 ^ 53" using assms(2) by (rule less_trans) simp
  note near = fl_near [OF assms]
  {
    assume a: "of_int j \<le> p \<and> p < of_int j + 1 - 1 / 2 ^ 49"
    then have "of_int j \<le> fl p" using assms(1) lt by (intro fl_ge_int) simp_all
    moreover have "fl p < of_int j + 1" using a near by linarith
    ultimately show "\<lfloor>fl p\<rfloor> = j" by (simp add: floor_unique)
  }
  {
    assume b: "\<lfloor>fl p\<rfloor> = j"
    then have f: "of_int j \<le> fl p" "fl p < of_int j + 1" by linarith+
    from f(1) near show "of_int j - 1 / 2 ^ 49 \<le> p" by linarith
    show "p < of_int j + 1"
    proof (rule ccontr)
      assume "\<not> p < of_int j + 1"
      then have "of_int (j + 1) \<le> p" by simp
      then have "of_int (j + 1) \<le> fl p" using assms(1) lt by (intro fl_ge_int)
      with f(2) show False by simp
    qed
  }
qed

lemma below_three_26ths:
  "(8314337773607069 / 2 ^ 56 :: rat) < 3 / 26
   \<and> is_double (8314337773607069 / 2 ^ 56)
   \<and> fl (8314337773607069 / 2 ^ 56 * 26) = 3"
proof (intro conjI)
  show "(8314337773607069 / 2 ^ 56 :: rat) < 3 / 26" by simp
  have "fl (of_int 8314337773607069 / 2 ^ 56) = of_int 8314337773607069 / 2 ^ 56"
    by (rule fl_dyadic) simp_all
  then show "is_double (8314337773607069 / 2 ^ 56)" by (simp add: is_double_def)
  have "fl (8314337773607069 / 2 ^ 56 * 26)
      = of_int (rne (8314337773607069 / 2 ^ 56 * 26 * 2 powi (52 - 1))) * 2 powi (1 - 52)"
    by (rule fl_binade) simp_all
  also have "\<dots> = 3" by (simp add: rne_def Let_def)
  finally show "fl (8314337773607069 / 2 ^ 56 * 26) = 3" .
qed

lemma six_tenths:
  "is_double (5404319552844595 / 2 ^ 53)
   \<and> fl (5404319552844595 / 2 ^ 53 * 15) = 9"
proof (intro conjI)
  have "fl (of_int 5404319552844595 / 2 ^ 53) = of_int 5404319552844595 / 2 ^ 53"
    by (rule fl_dyadic) simp_all
  then show "is_double (5404319552844595 / 2 ^ 53)" by (simp add: is_double_def)
  have "fl (5404319552844595 / 2 ^ 53 * 15)
      = of_int (rne (5404319552844595 / 2 ^ 53 * 15 * 2 powi (52 - 3))) * 2 powi (3 - 52)"
    by (rule fl_binade) simp_all
  also have "\<dots> = 9" by (simp add: rne_def Let_def)
  finally show "fl (5404319552844595 / 2 ^ 53 * 15) = 9" .
qed

section \<open>Evaluation of the sessions\<close>

lemma fl_values:
  "fl 13 = 13" "fl (15 / 2) = 15 / 2" "fl 10 = 10" "fl (25 / 2) = 25 / 2"
  "fl (945 / 64) = 945 / 64" "fl (315 / 16) = 315 / 16" "fl (1575 / 64) = 1575 / 64"
  "fl (819 / 32) = 819 / 32" "fl (1 / 2) = 1 / 2" "fl (63 / 64) = 63 / 64"
  using fl_dyadic [of 13 0] fl_dyadic [of 15 1] fl_dyadic [of 10 0] fl_dyadic [of 25 1]
    fl_dyadic [of 945 6] fl_dyadic [of 315 4] fl_dyadic [of 1575 6] fl_dyadic [of 819 5]
    fl_dyadic [of 1 1] fl_dyadic [of 63 6]
  by simp_all

lemma fl_0 [simp]: "fl 0 = 0"
  by (simp add: fl_def)

lemma js_times_0 [simp]: "js_times 0 b = 0"
  by (simp add: js_times_def)

lemma is_double_values: "is_double 0" "is_double (1 / 2)" "is_double (63 / 64)"
  by (simp_all add: is_double_def fl_values)

lemma length_chars: "length chars = 26" by (simp add: chars_def)

lemma codeLoop_step:
  "i < 4 \<Longrightarrow> codeLoop rnd i k c =
     codeLoop rnd (Suc i) (Suc k) (c @ charAt chars \<lfloor>js_times (rnd k) 26\<rfloor>)"
  by (subst codeLoop.simps) (simp add: length_chars)

lemma codeLoop_done: "\<not> i < 4 \<Longrightarrow> codeLoop rnd i k c = c"
  by (subst codeLoop.simps) simp

lemma codeLoop_unroll:
  "codeLoop rnd 0 k [] =
     charAt chars \<lfloor>js_times (rnd k) 26\<rfloor> @ charAt chars \<lfloor>js_times (rnd (k + 1)) 26\<rfloor> @
     charAt chars \<lfloor>js_times (rnd (k + 2)) 26\<rfloor> @ charAt chars \<lfloor>js_times (rnd (k + 3)) 26\<rfloor>"
  by (simp add: codeLoop_step codeLoop_done numeral_eq_Suc)

lemma half_code: "codeLoop half 0 k [] = ''NNNN''"
  by (simp add: codeLoop_unroll half_def charAt_def chars_def js_times_def fl_values)

lemma generate_half:
  "rs ''NNNN'' = None \<Longrightarrow> 0 < frames \<Longrightarrow> generateRoomCode frames rs half 0 = Some ''NNNN''"
  by (cases frames) (simp_all add: half_code)

lemma lobby_rooms:
  "rooms (run init lobby) ''NNNN'' =
     Some \<lparr>code = ''NNNN'', room_players = [''s1'', ''s2''],
            gameState = \<lparr>player1Health = 100, player2Health = 100, gameActive = False,
              currentTurn = Player1, roundN = 1, player1Wins = 0, player2Wins = 0\<rparr>,
            createdAt = 3, lastActivity = 4\<rparr>"
  by (simp add: lobby_def init_def connection_def create_room_def join_room_def
      generate_half to_room_def template_throws_def)

lemma lobby_free: "rooms (run init lobby) ''AAAA'' = None"
  by (simp add: lobby_def init_def connection_def create_room_def join_room_def
      generate_half to_room_def template_throws_def)

lemma lobby_players:
  "players (run init lobby) ''s1'' =
     Some \<lparr>pid = ''s1'', name = Str ''Anonymous'', room = Some ''NNNN'', isPlayer1 = True,
            connectedAt = 1\<rparr>"
  "players (run init lobby) ''s2'' =
     Some \<lparr>pid = ''s2'', name = Str ''Anonymous'', room = Some ''NNNN'', isPlayer1 = False,
            connectedAt = 2\<rparr>"
  by (simp_all add: lobby_def init_def connection_def create_room_def join_room_def
      generate_half to_room_def template_throws_def)

lemma run_append: "run st (es @ es') = run (run st es) es'"
  by (induction es arbitrary: st) simp_all

lemma started_rooms:
  "rooms (run init started) ''NNNN'' =
     Some \<lparr>code = ''NNNN'', room_players = [''s1'', ''s2''],
            gameState = \<lparr>player1Health = 100, player2Health = 100, gameActive = True,
              currentTurn = Player1, roundN = 1, player1Wins = 0, player2Wins = 0\<rparr>,
            createdAt = 3, lastActivity = 5\<rparr>"
  by (simp add: started_def run_append start_game_def lobby_rooms to_room_def)

lemma started_players:
  "players (run init started) = players (run init lobby)"
  by (simp add: started_def run_append start_game_def lobby_rooms to_room_def)

lemmas play = game_action_def action_def calcDamage_def applyDamage_def checkWinner_def
  js_times_def fl_values

lemma midgame_rooms:
  "rooms (run init midgame) ''NNNN'' =
     Some \<lparr>code = ''NNNN'', room_players = [''s1'', ''s2''],
            gameState = \<lparr>player1Health = 100, player2Health = 88, gameActive = True,
              currentTurn = Player2, roundN = 1, player1Wins = 0, player2Wins = 0\<rparr>,
            createdAt = 3, lastActivity = 6\<rparr>"
  by (simp add: midgame_def run_append started_rooms started_players lobby_players play)

lemma midgame_players:
  "players (run init midgame) = players (run init lobby)"
  by (simp add: midgame_def run_append started_rooms started_players lobby_players play)

lemma endgame_rooms:
  "rooms (run init endgame) ''NNNN'' =
     Some \<lparr>code = ''NNNN'', room_players = [''s1'', ''s2''],
            gameState = \<lparr>player1Health = 80, player2Health = 22, gameActive = True,
              currentTurn = Player1, roundN = 1, player1Wins = 0, player2Wins = 0\<rparr>,
            createdAt = 3, lastActivity = 9\<rparr>"
  by (simp add: endgame_def run_append started_rooms started_players lobby_players play)

lemma endgame_players:
  "players (run init endgame) = players (run init lobby)"
  by (simp add: endgame_def run_append started_rooms started_players lobby_players play)

lemma selfhits_rooms:
  "rooms (run init selfhits) ''NNNN'' =
     Some \<lparr>code = ''NNNN'', room_players = [''s1'', ''s2''],
            gameState = \<lparr>player1Health = 22, player2Health = 100, gameActive = True,
              currentTurn = Player1, roundN = 1, player1Wins = 0, player2Wins = 0\<rparr>,
            createdAt = 3, lastActivity = 7\<rparr>"
  by (simp add: selfhits_def run_append started_rooms started_players lobby_players play)

lemma selfhits_players:
  "players (run init selfhits) = players (run init lobby)"
  by (simp add: selfhits_def run_append started_rooms started_players lobby_players play)

section \<open>What every reachable state satisfies\<close>

lemma rooms_ok_upd:
  "rooms_ok st \<Longrightarrow> room_ok rm \<Longrightarrow> rooms_ok (st\<lparr>rooms := (rooms st)(c \<mapsto> rm)\<rparr>)"
  by (simp add: rooms_ok_def)

lemma rooms_ok_del:
  "rooms_ok st \<Longrightarrow> rooms_ok (st\<lparr>rooms := (rooms st)(c := None)\<rparr>)"
  by (simp add: rooms_ok_def)

lemma rooms_ok_players [simp]: "rooms_ok (st\<lparr>players := ps\<rparr>) = rooms_ok st"
  by (simp add: rooms_ok_def)

lemma rooms_okD: "rooms_ok st \<Longrightarrow> rooms st c = Some rm \<Longrightarrow> room_ok rm"
  by (auto simp: rooms_ok_def)

lemma connection_ok: "rooms_ok st \<Longrightarrow> rooms_ok (state_of (connection sid now st))"
  by (simp add: connection_def)

lemma set_name_ok: "rooms_ok st \<Longrightarrow> rooms_ok (state_of (set_name sid data st))"
  by (simp add: set_name_def Let_def split: option.splits)

lemma create_room_ok: "rooms_ok st \<Longrightarrow> rooms_ok (state_of (create_room sid now rnd frames st))"
  by (auto simp: create_room_def Let_def room_ok_def rooms_ok_def split: option.splits)

lemma join_room_ok: "rooms_ok st \<Longrightarrow> rooms_ok (state_of (join_room sid now data st))"
  by (auto simp: join_room_def Let_def room_ok_def rooms_ok_def split: option.splits)

lemma removed_ok:
  assumes "room_ok rm" "filter (\<lambda>p. p \<noteq> sid) (room_players rm) \<noteq> []"
    "gameActive g \<longrightarrow> 0 < player1Health g \<and> 0 < player2Health g"
  shows "room_ok (rm\<lparr>room_players := filter (\<lambda>p. p \<noteq> sid) (room_players rm),
           lastActivity := now, gameState := g\<rparr>)"
proof -
  have "length (filter (\<lambda>p. p \<noteq> sid) (room_players rm)) \<le> length (room_players rm)"
    by (rule length_filter_le)
  moreover have "length (room_players rm) \<le> 2" using assms(1) by (simp add: room_ok_def)
  ultimately have "length (filter (\<lambda>p. p \<noteq> sid) (room_players rm)) \<le> 2" by (rule order_trans)
  then show ?thesis using assms(2,3) by (simp add: room_ok_def)
qed

lemma leave_room_end_ok:
  "rooms_ok st \<Longrightarrow> rooms_ok (state_of (leave_room_end sid player data st out))"
  by (simp add: leave_room_end_def Let_def split: option.splits)

lemma leave_room_ok: "rooms_ok st \<Longrightarrow> rooms_ok (state_of (leave_room sid now data st))"
proof -
  assume ok: "rooms_ok st"
  have kept: "rooms_ok (st\<lparr>rooms := (rooms st)(c \<mapsto>
      rm\<lparr>room_players := filter (\<lambda>p. p \<noteq> sid) (room_players rm), lastActivity := now\<rparr>)\<rparr>)"
    if "rooms st c = Some rm" "filter (\<lambda>p. p \<noteq> sid) (room_players rm) \<noteq> []" for c rm
  proof -
    have "room_ok rm" using ok that(1) by (rule rooms_okD)
    then have "room_ok (rm\<lparr>room_players := filter (\<lambda>p. p \<noteq> sid) (room_players rm),
        lastActivity := now, gameState := gameState rm\<rparr>)"
      using that(2) by (intro removed_ok) (simp_all add: room_ok_def)
    with ok show ?thesis by (intro rooms_ok_upd) simp_all
  qed
  have reset: "rooms_ok (st\<lparr>rooms := (rooms st)(c \<mapsto>
      rm\<lparr>room_players := filter (\<lambda>p. p \<noteq> sid) (room_players rm), lastActivity := now,
         gameState := (gameState rm)
           \<lparr>gameActive := False, player1Health := 100, player2Health := 100\<rparr>\<rparr>)\<rparr>)"
    if "rooms st c = Some rm" "filter (\<lambda>p. p \<noteq> sid) (room_players rm) \<noteq> []" for c rm
  proof -
    have "room_ok rm" using ok that(1) by (rule rooms_okD)
    then show ?thesis using that(2) ok by (intro rooms_ok_upd removed_ok) simp_all
  qed
  show ?thesis
    using ok kept reset
    by (auto simp: leave_room_def Let_def rooms_ok_del leave_room_end_ok split: option.splits)
qed

lemma disconnect_ok: "rooms_ok st \<Longrightarrow> rooms_ok (state_of (disconnect sid now st))"
proof -
  assume ok: "rooms_ok st"
  have kept: "rooms_ok (st\<lparr>rooms := (rooms st)(c \<mapsto>
      rm\<lparr>room_players := filter (\<lambda>p. p \<noteq> sid) (room_players rm), lastActivity := now\<rparr>)\<rparr>)"
    if "rooms st c = Some rm" "filter (\<lambda>p. p \<noteq> sid) (room_players rm) \<noteq> []" for c rm
  proof -
    have "room_ok rm" using ok that(1) by (rule rooms_okD)
    then have "room_ok (rm\<lparr>room_players := filter (\<lambda>p. p \<noteq> sid) (room_players rm),
        lastActivity := now, gameState := gameState rm\<rparr>)"
      using that(2) by (intro removed_ok) (simp_all add: room_ok_def)
    with ok show ?thesis by (intro rooms_ok_upd) simp_all
  qed
  have reset: "rooms_ok (st\<lparr>rooms := (rooms st)(c \<mapsto>
      rm\<lparr>room_players := filter (\<lambda>p. p \<noteq> sid) (room_players rm), lastActivity := now,
         gameState := (gameState rm)\<lparr>gameActive := False\<rparr>\<rparr>)\<rparr>)"
    if "rooms st c = Some rm" "filter (\<lambda>p. p \<noteq> sid) (room_players rm) \<noteq> []" for c rm
  proof -
    have "room_ok rm" using ok that(1) by (rule rooms_okD)
    then show ?thesis using that(2) ok by (intro rooms_ok_upd removed_ok) simp_all
  qed
  have del: "rooms_ok (st\<lparr>rooms := (rooms st)(c := None)\<rparr>)" for c
    using ok by (rule rooms_ok_del)
  have del': "rooms_ok (st\<lparr>rooms := (rooms st)(c := None), players := ps\<rparr>)" for c ps
    using del [of c] by (simp add: rooms_ok_def)
  have reset': "rooms_ok (st\<lparr>rooms := (rooms st)(c \<mapsto>
      rm\<lparr>room_players := filter (\<lambda>p. p \<noteq> sid) (room_players rm), lastActivity := now,
         gameState := (gameState rm)\<lparr>gameActive := False\<rparr>\<rparr>), players := ps\<rparr>)"
    if "rooms st c = Some rm" "filter (\<lambda>p. p \<noteq> sid) (room_players rm) \<noteq> []" for c rm ps
    using reset [OF that] by (simp add: rooms_ok_def)
  show ?thesis
    using ok kept reset' del'
    by (auto simp: disconnect_def Let_def split: option.splits)
qed

lemma start_game_ok: "rooms_ok st \<Longrightarrow> rooms_ok (state_of (start_game sid now data st))"
  by (auto simp: start_game_def Let_def room_ok_def rooms_ok_def split: option.splits)

lemma restart_game_ok: "rooms_ok st \<Longrightarrow> rooms_ok (state_of (restart_game sid now data st))"
  by (auto simp: restart_game_def Let_def room_ok_def rooms_ok_def split: option.splits)

lemma resolved_ok:
  assumes "room_ok rm" "checkWinner (applyDamage label damage (gameState rm)) = (w, g')"
  shows "room_ok (rm\<lparr>lastActivity := now, gameState := g'\<rparr>)"
  using assms
  by (auto simp: room_ok_def checkWinner_def applyDamage_def Let_def split: if_splits)

lemma game_action_ok: "rooms_ok st \<Longrightarrow> rooms_ok (state_of (game_action sid now r data st))"
proof -
  assume ok: "rooms_ok st"
  show ?thesis
    using ok
    by (auto simp: game_action_def Let_def split: option.splits list.splits prod.splits
        intro!: rooms_ok_upd resolved_ok dest: rooms_okD)
qed

lemma sweep_ok: "rooms_ok st \<Longrightarrow> rooms_ok (state_of (sweep now st))"
  by (auto simp: sweep_def rooms_ok_def split: option.splits if_splits)

lemma handle_ok: "rooms_ok st \<Longrightarrow> rooms_ok (state_of (handle e st))"
  by (cases e)
     (simp_all add: connection_ok set_name_ok create_room_ok join_room_ok leave_room_ok
        start_game_ok game_action_ok restart_game_ok disconnect_ok sweep_ok)

lemma init_ok: "rooms_ok init"
  by (simp add: rooms_ok_def init_def)

lemma run_ok: "rooms_ok st \<Longrightarrow> rooms_ok (run st es)"
  by (induction es arbitrary: st) (simp_all add: handle_ok)

lemma reachable_ok: "rooms_ok (run init es)"
  by (rule run_ok [OF init_ok])

lemma handle_names:
  assumes "names_ok st" "printable_event e"
  shows "names_ok (state_of (handle e st))"
proof (cases e)
  case (Set_name sid data)
  with assms show ?thesis
    by (auto simp: set_name_def names_ok_def Let_def template_throws_def truthy_def
        split: option.splits jsval.splits)
next
  case (Game_action sid now r data)
  with assms(1) show ?thesis
    by (auto simp: game_action_def names_ok_def Let_def split: option.splits list.splits prod.splits)
next
  case (Leave_room sid now data)
  with assms(1) show ?thesis
    by (auto simp: leave_room_def leave_room_end_def names_ok_def Let_def split: option.splits)
qed (use assms(1) in \<open>auto simp: connection_def create_room_def join_room_def
      start_game_def restart_game_def disconnect_def sweep_def names_ok_def Let_def
      template_throws_def split: option.splits\<close>)

lemma run_names:
  "names_ok st \<Longrightarrow> \<forall>e\<in>set es. printable_event e \<Longrightarrow> names_ok (run st es)"
  by (induction es arbitrary: st) (simp_all add: handle_names)

lemma init_names: "names_ok init"
  by (simp add: names_ok_def init_def)

lemma no_throw_step:
  assumes "rooms_ok st" "names_ok st" "printable_event e" "has_payload e"
    "generation_returns e st"
  shows "\<not> threw (handle e st)"
proof (cases e)
  case (Game_action sid now r data)
  have "room_players rm \<noteq> []" if "rooms st c = Some rm" for c rm
    using rooms_okD [OF assms(1) that] by (simp add: room_ok_def)
  then show ?thesis
    using assms(4) Game_action
    by (auto simp: game_action_def Let_def split: option.splits list.splits prod.splits)
next
  case (Leave_room sid now data)
  then show ?thesis
    using assms(2,4)
    by (auto simp: leave_room_def leave_room_end_def names_ok_def Let_def split: option.splits)
next
  case (Set_name sid data)
  then show ?thesis
    using assms(3,4)
    by (auto simp: set_name_def Let_def template_throws_def truthy_def
        split: option.splits jsval.splits)
qed (use assms(2,4,5) in \<open>auto simp: connection_def create_room_def join_room_def
      start_game_def restart_game_def disconnect_def sweep_def names_ok_def Let_def
      split: option.splits\<close>)

section \<open>Room codes and damage\<close>

lemma distinct_chars: "distinct chars" by (simp add: chars_def)

lemma letter_index:
  assumes "0 \<le> r" "r < 1" "is_double r"
  shows "0 \<le> \<lfloor>js_times r 26\<rfloor> \<and> \<lfloor>js_times r 26\<rfloor> < 26"
proof -
  have "0 \<le> fl (r * of_int 26) \<and> fl (r * of_int 26) < of_int 26"
    using assms(3,1,2) by (rule scaled_bound [where E = 4]) simp_all
  then show ?thesis by (simp add: js_times_def floor_less_iff)
qed

lemma charAt_letter:
  assumes "0 \<le> r" "r < 1" "is_double r"
  shows "charAt chars \<lfloor>js_times r 26\<rfloor> = [chars ! nat \<lfloor>js_times r 26\<rfloor>]
       \<and> nat \<lfloor>js_times r 26\<rfloor> < 26"
proof -
  from letter_index [OF assms] have "nat \<lfloor>js_times r 26\<rfloor> < 26" by linarith
  then show ?thesis using letter_index [OF assms] by (simp add: charAt_def length_chars)
qed

lemma attempt_letters:
  assumes "unit_interval rnd"
  shows "attempt rnd n = map (\<lambda>i. chars ! nat \<lfloor>js_times (rnd (4 * n + i)) 26\<rfloor>) [0, 1, 2, 3]"
proof -
  have c: "charAt chars \<lfloor>js_times (rnd j) 26\<rfloor> = [chars ! nat \<lfloor>js_times (rnd j) 26\<rfloor>]" for j
    using charAt_letter [of "rnd j"] assms by (simp add: unit_interval_def)
  show ?thesis by (simp add: attempt_def codeLoop_unroll c)
qed

lemma attempt_shape:
  assumes "unit_interval rnd"
  shows "length (attempt rnd n) = 4 \<and> set (attempt rnd n) \<subseteq> set chars"
proof -
  have m: "chars ! nat \<lfloor>js_times (rnd j) 26\<rfloor> \<in> set chars" for j
    using charAt_letter [of "rnd j"] assms by (simp add: unit_interval_def length_chars)
  show ?thesis by (simp add: attempt_letters [OF assms] m)
qed

lemma generateRoomCode_from:
  "(generateRoomCode frames rs rnd (4 * m) = Some c)
     = (\<exists>n<frames. c = attempt rnd (m + n) \<and> rs (attempt rnd (m + n)) = None
          \<and> (\<forall>j<n. rs (attempt rnd (m + j)) \<noteq> None))"
proof (induction frames arbitrary: m)
  case 0
  then show ?case by simp
next
  case (Suc frames)
  show ?case
  proof (cases "rs (attempt rnd m) = None")
    case True
    have "(\<exists>n<Suc frames. c = attempt rnd (m + n) \<and> rs (attempt rnd (m + n)) = None
          \<and> (\<forall>j<n. rs (attempt rnd (m + j)) \<noteq> None)) = (c = attempt rnd m)"
    proof
      assume "\<exists>n<Suc frames. c = attempt rnd (m + n) \<and> rs (attempt rnd (m + n)) = None
          \<and> (\<forall>j<n. rs (attempt rnd (m + j)) \<noteq> None)"
      then obtain n where n: "c = attempt rnd (m + n)" "\<forall>j<n. rs (attempt rnd (m + j)) \<noteq> None"
        by blast
      have "n = 0"
      proof (rule ccontr)
        assume "n \<noteq> 0"
        then have "0 < n" by simp
        with n(2) have "rs (attempt rnd (m + 0)) \<noteq> None" by blast
        with True show False by simp
      qed
      with n(1) show "c = attempt rnd m" by simp
    next
      assume "c = attempt rnd m"
      with True show "\<exists>n<Suc frames. c = attempt rnd (m + n) \<and> rs (attempt rnd (m + n)) = None
          \<and> (\<forall>j<n. rs (attempt rnd (m + j)) \<noteq> None)"
        by (intro exI [of _ 0]) simp
    qed
    moreover have "generateRoomCode (Suc frames) rs rnd (4 * m) = Some (attempt rnd m)"
      using True by (simp add: attempt_def Let_def)
    ultimately show ?thesis by auto
  next
    case False
    have step: "generateRoomCode (Suc frames) rs rnd (4 * m)
        = generateRoomCode frames rs rnd (4 * Suc m)"
      using False by (simp add: attempt_def Let_def add.commute)
    have "(\<exists>n<Suc frames. c = attempt rnd (m + n) \<and> rs (attempt rnd (m + n)) = None
          \<and> (\<forall>j<n. rs (attempt rnd (m + j)) \<noteq> None))
        = (\<exists>n<frames. c = attempt rnd (Suc m + n) \<and> rs (attempt rnd (Suc m + n)) = None
          \<and> (\<forall>j<n. rs (attempt rnd (Suc m + j)) \<noteq> None))"
    proof
      assume "\<exists>n<Suc frames. c = attempt rnd (m + n) \<and> rs (attempt rnd (m + n)) = None
          \<and> (\<forall>j<n. rs (attempt rnd (m + j)) \<noteq> None)"
      then obtain n where n: "n < Suc frames" "c = attempt rnd (m + n)"
        "rs (attempt rnd (m + n)) = None" "\<forall>j<n. rs (attempt rnd (m + j)) \<noteq> None"
        by blast
      from n(3) False have "n \<noteq> 0" by (cases "n = 0") simp_all
      then obtain n' where n': "n = Suc n'" by (cases n) simp_all
      have "\<forall>j<n'. rs (attempt rnd (Suc m + j)) \<noteq> None"
      proof (intro allI impI)
        fix j assume "j < n'"
        then have "Suc j < n" using n' by simp
        with n(4) have "rs (attempt rnd (m + Suc j)) \<noteq> None" by blast
        then show "rs (attempt rnd (Suc m + j)) \<noteq> None" by simp
      qed
      with n(1-3) n' show "\<exists>n<frames. c = attempt rnd (Suc m + n)
          \<and> rs (attempt rnd (Suc m + n)) = None
          \<and> (\<forall>j<n. rs (attempt rnd (Suc m + j)) \<noteq> None)"
        by (intro exI [of _ n']) simp
    next
      assume "\<exists>n<frames. c = attempt rnd (Suc m + n) \<and> rs (attempt rnd (Suc m + n)) = None
          \<and> (\<forall>j<n. rs (attempt rnd (Suc m + j)) \<noteq> None)"
      then obtain n where n: "n < frames" "c = attempt rnd (Suc m + n)"
        "rs (attempt rnd (Suc m + n)) = None" "\<forall>j<n. rs (attempt rnd (Suc m + j)) \<noteq> None"
        by blast
      have "\<forall>j<Suc n. rs (attempt rnd (m + j)) \<noteq> None"
      proof (intro allI impI)
        fix j assume j: "j < Suc n"
        show "rs (attempt rnd (m + j)) \<noteq> None"
        proof (cases j)
          case 0
          with False show ?thesis by simp
        next
          case (Suc j')
          with j have "j' < n" by simp
          with n(4) have "rs (attempt rnd (Suc m + j')) \<noteq> None" by blast
          with Suc show ?thesis by simp
        qed
      qed
      with n(1-3) show "\<exists>n<Suc frames. c = attempt rnd (m + n)
          \<and> rs (attempt rnd (m + n)) = None \<and> (\<forall>j<n. rs (attempt rnd (m + j)) \<noteq> None)"
        by (intro exI [of _ "Suc n"]) simp
    qed
    with step Suc.IH [of "Suc m"] show ?thesis by simp
  qed
qed

lemma generateRoomCode_iff:
  "(generateRoomCode frames rs rnd 0 = Some c)
     = (\<exists>n<frames. c = attempt rnd n \<and> rs (attempt rnd n) = None
          \<and> (\<forall>m<n. rs (attempt rnd m) \<noteq> None))"
  using generateRoomCode_from [of frames rs rnd 0 c] by simp

lemma letter_interval:
  assumes "0 \<le> r" "r < 1"
  shows "(of_int j \<le> r * 26 \<and> r * 26 < of_int j + 1 - 1 / 2 ^ 49 \<longrightarrow> \<lfloor>js_times r 26\<rfloor> = j)
       \<and> (\<lfloor>js_times r 26\<rfloor> = j \<longrightarrow> of_int j - 1 / 2 ^ 49 \<le> r * 26 \<and> r * 26 < of_int j + 1)"
proof -
  have "0 \<le> r * 26" "r * 26 < 32" using assms by simp_all
  from floor_fl_interval [OF this, of j] show ?thesis by (simp add: js_times_def)
qed

lemma retry_attempts: "attempt retry 0 = ''NNNN''" "attempt retry (Suc 0) = ''AAAA''"
  by (simp_all add: attempt_def codeLoop_unroll retry_def charAt_def chars_def js_times_def
      fl_values)

lemma retry_unit: "unit_interval retry"
  by (simp add: unit_interval_def retry_def is_double_values)

lemma colliding_attempts:
  "n < L \<Longrightarrow> attempt (colliding L) n = ''NNNN''"
  "L \<le> n \<Longrightarrow> attempt (colliding L) n = ''AAAA''"
  by (simp_all add: attempt_def codeLoop_unroll colliding_def charAt_def chars_def js_times_def
      fl_values)

lemma colliding_unit: "unit_interval (colliding L)"
  by (simp add: unit_interval_def colliding_def is_double_values)

lemma colliding_overflows:
  assumes "rs ''NNNN'' \<noteq> None"
  shows "generateRoomCode L rs (colliding L) 0 = None"
proof (rule ccontr)
  assume "generateRoomCode L rs (colliding L) 0 \<noteq> None"
  then obtain c where "generateRoomCode L rs (colliding L) 0 = Some c" by blast
  then obtain n where "n < L" "rs (attempt (colliding L) n) = None"
    unfolding generateRoomCode_iff by blast
  with assms show False by (simp add: colliding_attempts)
qed

text \<open>
  C9, as amended. Whenever every draw of \<open>Math.random()\<close> is a double in \<open>[0, 1)\<close>:
  a code that \<open>generateRoomCode\<close> returns has length 4, consists of letters of A-Z
  and is not the code of a room of the store. The function returns exactly when one of
  the attempts that fit on the call stack is free, and then it returns the first free
  one; otherwise it ends in a RangeError. Each of the four characters of an attempt
  comes from a draw of its own: it is the letter at index \<open>floor (draw * 26)\<close>, the
  product rounded to a double. That index lies between 0 and 25; it is \<open>j\<close> for every
  draw with \<open>j \<le> draw * 26 < j + 1 - 1/2^49\<close>, and only for draws with
  \<open>j - 1/2^49 \<le> draw * 26 < j + 1\<close>: the 26 letters have intervals of draws of the
  same width 1/26, up to the rounding of the product.
\<close>

theorem generateRoomCode_fresh:
  assumes "unit_interval rnd"
  shows "(\<forall>c. generateRoomCode frames rs rnd 0 = Some c \<longrightarrow>
            length c = 4 \<and> set c \<subseteq> set chars \<and> rs c = None)
       \<and> (\<forall>c. (generateRoomCode frames rs rnd 0 = Some c)
            = (\<exists>n<frames. c = attempt rnd n \<and> rs (attempt rnd n) = None
                 \<and> (\<forall>m<n. rs (attempt rnd m) \<noteq> None)))
       \<and> (\<forall>n. attempt rnd n
            = map (\<lambda>i. chars ! nat \<lfloor>js_times (rnd (4 * n + i)) 26\<rfloor>) [0, 1, 2, 3])
       \<and> (\<forall>k j. 0 \<le> \<lfloor>js_times (rnd k) 26\<rfloor> \<and> \<lfloor>js_times (rnd k) 26\<rfloor> < 26
            \<and> (of_int j \<le> rnd k * 26 \<and> rnd k * 26 < of_int j + 1 - 1 / 2 ^ 49 \<longrightarrow>
                 \<lfloor>js_times (rnd k) 26\<rfloor> = j)
            \<and> (\<lfloor>js_times (rnd k) 26\<rfloor> = j \<longrightarrow>
                 of_int j - 1 / 2 ^ 49 \<le> rnd k * 26 \<and> rnd k * 26 < of_int j + 1))"
proof (intro conjI allI)
  fix c
  show "generateRoomCode frames rs rnd 0 = Some c \<longrightarrow>
          length c = 4 \<and> set c \<subseteq> set chars \<and> rs c = None"
  proof
    assume "generateRoomCode frames rs rnd 0 = Some c"
    then obtain n where "c = attempt rnd n" "rs (attempt rnd n) = None"
      unfolding generateRoomCode_iff by blast
    with attempt_shape [OF assms, of n]
    show "length c = 4 \<and> set c \<subseteq> set chars \<and> rs c = None" by simp
  qed
  show "(generateRoomCode frames rs rnd 0 = Some c)
          = (\<exists>n<frames. c = attempt rnd n \<and> rs (attempt rnd n) = None
               \<and> (\<forall>m<n. rs (attempt rnd m) \<noteq> None))"
    by (rule generateRoomCode_iff)
next
  fix n
  show "attempt rnd n = map (\<lambda>i. chars ! nat \<lfloor>js_times (rnd (4 * n + i)) 26\<rfloor>) [0, 1, 2, 3]"
    using assms by (rule attempt_letters)
next
  fix k j
  have r: "0 \<le> rnd k" "rnd k < 1" "is_double (rnd k)"
    using assms by (simp_all add: unit_interval_def)
  from letter_index [OF r]
  show "0 \<le> \<lfloor>js_times (rnd k) 26\<rfloor>" and "\<lfloor>js_times (rnd k) 26\<rfloor> < 26" by simp_all
  from letter_interval [OF r(1,2), of j]
  show "of_int j \<le> rnd k * 26 \<and> rnd k * 26 < of_int j + 1 - 1 / 2 ^ 49 \<longrightarrow>
          \<lfloor>js_times (rnd k) 26\<rfloor> = j"
    and "\<lfloor>js_times (rnd k) 26\<rfloor> = j \<longrightarrow>
          of_int j - 1 / 2 ^ 49 \<le> rnd k * 26 \<and> rnd k * 26 < of_int j + 1"
    by simp_all
qed

theorem generateRoomCode_fresh_witness:
  "unit_interval retry
   \<and> rooms (run init lobby) ''NNNN'' \<noteq> None
   \<and> rooms (run init lobby) ''AAAA'' = None
   \<and> attempt retry 0 = ''NNNN'' \<and> attempt retry 1 = ''AAAA''
   \<and> generateRoomCode 2 (rooms (run init lobby)) retry 0 = Some ''AAAA''
   \<and> generateRoomCode 1 (rooms (run init lobby)) retry 0 = None
   \<and> length ''AAAA'' = 4 \<and> set ''AAAA'' \<subseteq> set chars"
proof -
  have taken: "rooms (run init lobby) ''NNNN'' \<noteq> None" by (simp add: lobby_rooms)
  have a0: "attempt retry 0 = ''NNNN''" by (rule retry_attempts)
  have a1: "attempt retry 1 = ''AAAA''" using retry_attempts(2) by simp
  note t2 = generateRoomCode_fresh [OF retry_unit, of 2 "rooms (run init lobby)"]
  note t1 = generateRoomCode_fresh [OF retry_unit, of 1 "rooms (run init lobby)"]
  have first: "\<forall>m<1. rooms (run init lobby) (attempt retry m) \<noteq> None"
  proof (intro allI impI)
    fix m :: nat assume "m < 1"
    then have "m = 0" by simp
    with taken a0 show "rooms (run init lobby) (attempt retry m) \<noteq> None" by simp
  qed
  have "(1::nat) < 2" by simp
  moreover have "''AAAA'' = attempt retry 1" using a1 by simp
  moreover have "rooms (run init lobby) (attempt retry 1) = None" using a1 lobby_free by simp
  ultimately have ex: "\<exists>n<2. ''AAAA'' = attempt retry n
      \<and> rooms (run init lobby) (attempt retry n) = None
      \<and> (\<forall>m<n. rooms (run init lobby) (attempt retry m) \<noteq> None)"
    using first by (intro exI [of _ 1] conjI)
  have g2: "generateRoomCode 2 (rooms (run init lobby)) retry 0 = Some ''AAAA''"
    by (rule t2 [THEN conjunct2, THEN conjunct1, rule_format, THEN iffD2]) (rule ex)
  note sh = t2 [THEN conjunct1, rule_format, OF g2]
  have shape: "length ''AAAA'' = 4 \<and> set ''AAAA'' \<subseteq> set chars"
    by (intro conjI sh [THEN conjunct1] sh [THEN conjunct2, THEN conjunct1])
  have none: "\<not> (\<exists>n<1. c = attempt retry n \<and> rooms (run init lobby) (attempt retry n) = None
      \<and> (\<forall>m<n. rooms (run init lobby) (attempt retry m) \<noteq> None))" for c
  proof
    assume "\<exists>n<1. c = attempt retry n \<and> rooms (run init lobby) (attempt retry n) = None
      \<and> (\<forall>m<n. rooms (run init lobby) (attempt retry m) \<noteq> None)"
    then obtain n :: nat where "n < 1" "rooms (run init lobby) (attempt retry n) = None"
      by blast
    then have "rooms (run init lobby) (attempt retry 0) = None" by simp
    with taken a0 show False by simp
  qed
  have "generateRoomCode 1 (rooms (run init lobby)) retry 0 \<noteq> Some c" for c
  proof
    assume "generateRoomCode 1 (rooms (run init lobby)) retry 0 = Some c"
    from t1 [THEN conjunct2, THEN conjunct1, rule_format, THEN iffD1, OF this] none [of c]
    show False by (rule notE [rotated])
  qed
  then have g1: "generateRoomCode 1 (rooms (run init lobby)) retry 0 = None"
    by (cases "generateRoomCode 1 (rooms (run init lobby)) retry 0") blast+
  from shape have l: "length ''AAAA'' = 4" and s: "set ''AAAA'' \<subseteq> set chars" by blast+
  show ?thesis
    by (intro conjI retry_unit taken lobby_free a0 a1 g2 g1 l s)
qed

text \<open>
  The retry does not go on until a fresh code is produced: with 10000 frames of stack
  and the 10000 first attempts all equal to the code of the one room of the store, the
  call ends in a RangeError, although the next attempt would be the free code AAAA.
  And a letter is not drawn exactly for the draws of \<open>[j/26, (j+1)/26)\<close>: the double
  8314337773607069 / 2^56 is less than 3/26, its product with 26 rounds to 3, and the
  letter is D, not C.
\<close>

theorem generateRoomCode_fresh_counterexample:
  "unit_interval (colliding 10000)
   \<and> rooms (run init lobby) ''NNNN'' \<noteq> None
   \<and> attempt (colliding 10000) 10000 = ''AAAA''
   \<and> rooms (run init lobby) ''AAAA'' = None
   \<and> generateRoomCode 10000 (rooms (run init lobby)) (colliding 10000) 0 = None
   \<and> (8314337773607069 / 2 ^ 56 :: rat) < 3 / 26
   \<and> is_double (8314337773607069 / 2 ^ 56)
   \<and> charAt chars \<lfloor>js_times (8314337773607069 / 2 ^ 56) (of_nat (length chars))\<rfloor> = ''D''"
proof -
  have taken: "rooms (run init lobby) ''NNNN'' \<noteq> None" by (simp add: lobby_rooms)
  have a: "attempt (colliding 10000) 10000 = ''AAAA''" by (rule colliding_attempts) simp
  have g: "generateRoomCode 10000 (rooms (run init lobby)) (colliding 10000) 0 = None"
    using taken by (rule colliding_overflows)
  have d: "charAt chars \<lfloor>js_times (8314337773607069 / 2 ^ 56) (of_nat (length chars))\<rfloor> = ''D''"
    using below_three_26ths by (simp add: js_times_def length_chars charAt_def chars_def)
  from below_three_26ths have b: "(8314337773607069 / 2 ^ 56 :: rat) < 3 / 26"
    and i: "is_double (8314337773607069 / 2 ^ 56)" by blast+
  show ?thesis
    by (intro conjI colliding_unit taken a lobby_free g b i d)
qed

lemma floor_below:
  fixes x :: rat
  assumes "0 \<le> x \<and> x < of_int n"
  shows "0 \<le> \<lfloor>x\<rfloor> \<and> \<lfloor>x\<rfloor> \<le> n - 1"
proof -
  from assms have "\<lfloor>x\<rfloor> < n" by (simp add: floor_less_iff)
  moreover from assms have "0 \<le> \<lfloor>x\<rfloor>" by simp
  ultimately show ?thesis by simp
qed

text \<open>
  C1. The integer ranges the code deals, for a draw \<open>r\<close> of \<open>Math.random()\<close>, a
  double in \<open>[0, 1)\<close>: punch (light) 5 to 19, kick (heavy) 10 to 29, special 15 to 39;
  any other action kind deals the fixed value 10. The upper ends 20, 30 and 40 that the
  comments of the source announce are never dealt, also not through the rounding of
  the product.
\<close>

theorem calcDamage_range:
  assumes "0 \<le> r" "r < 1" "is_double r"
  shows "5 \<le> calcDamage (Some ''punch'') r \<and> calcDamage (Some ''punch'') r \<le> 19
       \<and> 10 \<le> calcDamage (Some ''kick'') r \<and> calcDamage (Some ''kick'') r \<le> 29
       \<and> 15 \<le> calcDamage (Some ''special'') r \<and> calcDamage (Some ''special'') r \<le> 39
       \<and> (kind \<noteq> Some ''punch'' \<and> kind \<noteq> Some ''kick'' \<and> kind \<noteq> Some ''special'' \<longrightarrow>
            calcDamage kind r = 10)"
proof -
  have "0 \<le> fl (r * of_int 15) \<and> fl (r * of_int 15) < of_int 15"
    using assms(3,1,2) by (rule scaled_bound [where E = 3]) simp_all
  then have a: "0 \<le> \<lfloor>js_times r 15\<rfloor> \<and> \<lfloor>js_times r 15\<rfloor> \<le> 14"
    using floor_below [of "fl (r * 15)" 15] by (simp add: js_times_def)
  have "0 \<le> fl (r * of_int 20) \<and> fl (r * of_int 20) < of_int 20"
    using assms(3,1,2) by (rule scaled_bound [where E = 4]) simp_all
  then have b: "0 \<le> \<lfloor>js_times r 20\<rfloor> \<and> \<lfloor>js_times r 20\<rfloor> \<le> 19"
    using floor_below [of "fl (r * 20)" 20] by (simp add: js_times_def)
  have "0 \<le> fl (r * of_int 25) \<and> fl (r * of_int 25) < of_int 25"
    using assms(3,1,2) by (rule scaled_bound [where E = 4]) simp_all
  then have c: "0 \<le> \<lfloor>js_times r 25\<rfloor> \<and> \<lfloor>js_times r 25\<rfloor> \<le> 24"
    using floor_below [of "fl (r * 25)" 25] by (simp add: js_times_def)
  from a b c show ?thesis by (simp add: calcDamage_def)
qed

theorem calcDamage_range_witness:
  "(0::rat) \<le> 63 / 64 \<and> (63 / 64 :: rat) < 1 \<and> is_double (63 / 64)
   \<and> calcDamage (Some ''punch'') (63 / 64) = 19
   \<and> calcDamage (Some ''kick'') (63 / 64) = 29
   \<and> calcDamage (Some ''special'') (63 / 64) = 39
   \<and> calcDamage (Some ''block'') (63 / 64) = 10"
  using calcDamage_range [of "63 / 64" "Some ''block''"]
  by (simp add: calcDamage_def is_double_values js_times_def fl_values)

text \<open>
  The rounding of the product is seen below the upper end: the double nearest to 0.6
  is less than 0.6, its product with 15 rounds to 9, and the punch deals 14, where the
  exact product gives 13.
\<close>

lemma calcDamage_six_tenths:
  "is_double (5404319552844595 / 2 ^ 53)
   \<and> calcDamage (Some ''punch'') (5404319552844595 / 2 ^ 53) = 14"
  using six_tenths by (simp add: calcDamage_def js_times_def)

section \<open>The turn check and the turn switch\<close>

text \<open>
  C4. A \<open>game_action\<close> addressed to a room of the store by a connection whose seat
  (the first entry of the room's player list sits on seat A, anyone else on seat B) does
  not hold the turn changes nothing: the handler returns, the two maps are what they
  were (so both health values, the turn indicator, the win counters, the round counter
  and the room's last-activity timestamp are unchanged) and nothing is emitted to the
  room. When the game is active and the sender is registered, which are the guards that
  precede the turn check, the one emission is the private error \<open>Not your turn!\<close> to
  the sender.
\<close>

theorem not_your_turn:
  assumes "d_roomCode d = Some c" "rooms st c = Some rm" "room_players rm \<noteq> []"
    "currentTurn (gameState rm) \<noteq> seat_of sid (room_players rm)"
  shows "state_of (game_action sid now r (Some d) st) = st
       \<and> \<not> threw (game_action sid now r (Some d) st)
       \<and> (\<forall>c' m. Io_to_emit c' m \<notin> set (effects_of (game_action sid now r (Some d) st)))
       \<and> (gameActive (gameState rm) \<and> players st sid \<noteq> None \<longrightarrow>
            game_action sid now r (Some d) st =
              Returned st [Socket_emit sid (Error ''Not your turn!'')])"
proof -
  from assms(3) obtain p0 ps where ps: "room_players rm = p0 # ps"
    by (cases "room_players rm") simp_all
  with assms(4) have t: "currentTurn (gameState rm) \<noteq> (if p0 = sid then Player1 else Player2)"
    by simp
  show ?thesis
    using assms(1,2) ps t
    by (auto simp: game_action_def Let_def split: option.splits)
qed

theorem not_your_turn_witness:
  "game_action ''s2'' 6 (1 / 2) (Some (action ''NNNN'' ''player2'' ''punch'')) (run init started)
     = Returned (run init started) [Socket_emit ''s2'' (Error ''Not your turn!'')]
   \<and> currentTurn (gameState (the (rooms (run init started) ''NNNN''))) = Player1
   \<and> seat_of ''s2'' (room_players (the (rooms (run init started) ''NNNN''))) = Player2"
  using not_your_turn [of "action ''NNNN'' ''player2'' ''punch''" "''NNNN''" "run init started"
      "the (rooms (run init started) ''NNNN'')" "''s2''" 6 "1 / 2"]
  by (simp add: started_rooms started_players lobby_players action_def)

text \<open>
  What an accepted \<open>game_action\<close> does to the turn indicator: afterwards it is the
  seat opposite the one that the payload's label names (\<open>'player1'\<close> names seat A, any
  other value seat B). The handler sets it from \<open>data.player\<close>, not from the seat that
  held the turn, so that it is the seat opposite the one that held the turn when the
  label names the sender's own seat, also on the action that ends the round.
\<close>

lemma game_action_turn:
  assumes "d_roomCode d = Some c" "rooms st c = Some rm" "gameActive (gameState rm)"
    "players st sid = Some p" "room_players rm \<noteq> []"
    "currentTurn (gameState rm) = seat_of sid (room_players rm)"
  shows "\<exists>rm'. rooms (state_of (game_action sid now r (Some d) st)) c = Some rm'
       \<and> currentTurn (gameState rm') = opponent (acting_seat (d_player d))
       \<and> (acting_seat (d_player d) = seat_of sid (room_players rm) \<longrightarrow>
            currentTurn (gameState rm') = opponent (currentTurn (gameState rm)))"
proof -
  from assms(5) obtain p0 ps where ps: "room_players rm = p0 # ps"
    by (cases "room_players rm") simp_all
  with assms(6) have t: "currentTurn (gameState rm) = (if p0 = sid then Player1 else Player2)"
    by simp
  show ?thesis
    using assms(1-4) ps t
    by (auto simp: game_action_def Let_def applyDamage_def checkWinner_def split: prod.splits)
qed

lemma game_action_turn_own_label:
  "currentTurn (gameState (the (rooms (run init started) ''NNNN''))) = Player1
   \<and> seat_of ''s1'' (room_players (the (rooms (run init started) ''NNNN''))) = Player1
   \<and> acting_seat (d_player (action ''NNNN'' ''player1'' ''punch'')) = Player1
   \<and> (\<exists>rm'. rooms (state_of (game_action ''s1'' 6 (1 / 2)
                 (Some (action ''NNNN'' ''player1'' ''punch'')) (run init started))) ''NNNN'' = Some rm'
         \<and> currentTurn (gameState rm') = Player2)"
  using game_action_turn [of "action ''NNNN'' ''player1'' ''punch''" "''NNNN''" "run init started"
      "the (rooms (run init started) ''NNNN'')" "''s1''" _ 6 "1 / 2"]
  by (simp add: started_rooms started_players lobby_players action_def)

text \<open>
  C2. The turn indicator does not alternate on every accepted action regardless of the
  payload. Seat A holds the turn and sends a punch with the label \<open>'player2'\<close>: the
  action passes the turn check, which looks at the sender's seat, it is seat A's own
  health that drops by 12, and the turn indicator afterwards is seat A again, not the
  seat opposite the one that held the turn.
\<close>

theorem game_action_turn_spoofed:
  "rooms (run init started) ''NNNN'' =
     Some \<lparr>code = ''NNNN'', room_players = [''s1'', ''s2''],
            gameState = \<lparr>player1Health = 100, player2Health = 100, gameActive = True,
              currentTurn = Player1, roundN = 1, player1Wins = 0, player2Wins = 0\<rparr>,
            createdAt = 3, lastActivity = 5\<rparr>
   \<and> seat_of ''s1'' [''s1'', ''s2''] = Player1
   \<and> game_action ''s1'' 6 (1 / 2) (Some (action ''NNNN'' ''player2'' ''punch'')) (run init started)
     = Returned
         ((run init started)\<lparr>rooms := (rooms (run init started))(''NNNN'' \<mapsto>
            \<lparr>code = ''NNNN'', room_players = [''s1'', ''s2''],
             gameState = \<lparr>player1Health = 88, player2Health = 100, gameActive = True,
               currentTurn = Player1, roundN = 1, player1Wins = 0, player2Wins = 0\<rparr>,
             createdAt = 3, lastActivity = 6\<rparr>)\<rparr>)
         [Io_to_emit ''NNNN'' (Game_action_msg (Some ''punch'') (Some ''player2'') 12),
          Io_to_emit ''NNNN'' (Game_update 88 100 Player1 None 0 0)]"
  by (simp add: started_rooms started_players lobby_players play)

section \<open>Damage and win detection\<close>

lemma resolve_accepted:
  assumes "d_roomCode d = Some c" "rooms st c = Some rm" "gameActive (gameState rm)"
    "players st sid = Some p" "room_players rm \<noteq> []"
    "currentTurn (gameState rm) = seat_of sid (room_players rm)"
  shows "game_action sid now r (Some d) st =
     Returned
       (st\<lparr>rooms := (rooms st)(c \<mapsto> rm\<lparr>lastActivity := now,
          gameState := snd (checkWinner (applyDamage (d_player d) (calcDamage (d_action d) r) (gameState rm)))\<rparr>)\<rparr>)
       [Io_to_emit c (Game_action_msg (d_action d) (d_player d) (calcDamage (d_action d) r)),
        Io_to_emit c (Game_update
          (player1Health (snd (checkWinner (applyDamage (d_player d) (calcDamage (d_action d) r) (gameState rm)))))
          (player2Health (snd (checkWinner (applyDamage (d_player d) (calcDamage (d_action d) r) (gameState rm)))))
          (currentTurn (snd (checkWinner (applyDamage (d_player d) (calcDamage (d_action d) r) (gameState rm)))))
          (fst (checkWinner (applyDamage (d_player d) (calcDamage (d_action d) r) (gameState rm))))
          (player1Wins (snd (checkWinner (applyDamage (d_player d) (calcDamage (d_action d) r) (gameState rm)))))
          (player2Wins (snd (checkWinner (applyDamage (d_player d) (calcDamage (d_action d) r) (gameState rm))))))]"
proof -
  from assms(5) obtain p0 ps where ps: "room_players rm = p0 # ps"
    by (cases "room_players rm") simp_all
  with assms(6) have t: "currentTurn (gameState rm) = (if p0 = sid then Player1 else Player2)"
    by simp
  show ?thesis
    using assms(1-4) ps t
    by (simp add: game_action_def Let_def split: prod.splits)
qed

lemma resolve_outcome:
  assumes "0 < player1Health g" "0 < player2Health g"
  shows "health (opponent (acting_seat label)) (snd (checkWinner (applyDamage label dmg g)))
           = max 0 (health (opponent (acting_seat label)) g - dmg)
       \<and> health (acting_seat label) (snd (checkWinner (applyDamage label dmg g)))
           = health (acting_seat label) g
       \<and> (if health (opponent (acting_seat label)) (snd (checkWinner (applyDamage label dmg g))) = 0
          then fst (checkWinner (applyDamage label dmg g)) = Some (acting_seat label)
             \<and> wins (acting_seat label) (snd (checkWinner (applyDamage label dmg g)))
                 = wins (acting_seat label) g + 1
             \<and> wins (opponent (acting_seat label)) (snd (checkWinner (applyDamage label dmg g)))
                 = wins (opponent (acting_seat label)) g
             \<and> \<not> gameActive (snd (checkWinner (applyDamage label dmg g)))
          else fst (checkWinner (applyDamage label dmg g)) = None
             \<and> wins (acting_seat label) (snd (checkWinner (applyDamage label dmg g)))
                 = wins (acting_seat label) g
             \<and> wins (opponent (acting_seat label)) (snd (checkWinner (applyDamage label dmg g)))
                 = wins (opponent (acting_seat label)) g
             \<and> gameActive (snd (checkWinner (applyDamage label dmg g))) = gameActive g)"
  using assms by (auto simp: checkWinner_def applyDamage_def Let_def max_def)

text \<open>
  What an accepted \<open>game_action\<close> does in a state that a sequence of events leads to,
  told by the payload's label: call the seat that the label names the labelled seat.
  The health of the seat opposite the labelled one becomes \<open>max 0 (health - damage)\<close>,
  so never less than 0, and the health of the labelled seat is unchanged; if the former
  is then 0, the \<open>game_update\<close> broadcast names the labelled seat as winner, its win
  counter is one more, the other counter is unchanged and the game is no longer active;
  otherwise no winner is named and both win counters and the active flag are unchanged.
  When the label names the sender's own seat, the labelled seat is the attacker.
\<close>

lemma game_action_by_label:
  assumes "d_roomCode d = Some c" "rooms (run init es) c = Some rm" "gameActive (gameState rm)"
    "players (run init es) sid = Some p"
    "currentTurn (gameState rm) = seat_of sid (room_players rm)"
  shows "let labelled = acting_seat (d_player d);
             other = opponent labelled;
             damage = calcDamage (d_action d) r;
             res = checkWinner (applyDamage (d_player d) damage (gameState rm));
             winner = fst res;
             g' = snd res
         in game_action sid now r (Some d) (run init es) =
              Returned
                ((run init es)\<lparr>rooms := (rooms (run init es))(c \<mapsto>
                   rm\<lparr>lastActivity := now, gameState := g'\<rparr>)\<rparr>)
                [Io_to_emit c (Game_action_msg (d_action d) (d_player d) damage),
                 Io_to_emit c (Game_update (player1Health g') (player2Health g') (currentTurn g')
                   winner (player1Wins g') (player2Wins g'))]
          \<and> health other g' = max 0 (health other (gameState rm) - damage)
          \<and> 0 \<le> health other g'
          \<and> health labelled g' = health labelled (gameState rm)
          \<and> (if health other g' = 0
             then winner = Some labelled
                \<and> wins labelled g' = wins labelled (gameState rm) + 1
                \<and> wins other g' = wins other (gameState rm)
                \<and> \<not> gameActive g'
             else winner = None
                \<and> wins labelled g' = wins labelled (gameState rm)
                \<and> wins other g' = wins other (gameState rm)
                \<and> gameActive g' = gameActive (gameState rm))"
proof -
  have ok: "room_ok rm" using reachable_ok assms(2) by (rule rooms_okD)
  then have ne: "room_players rm \<noteq> []"
    and pos: "0 < player1Health (gameState rm)" "0 < player2Health (gameState rm)"
    using assms(3) by (simp_all add: room_ok_def)
  note run = resolve_accepted [OF assms(1-4) ne assms(5), of now r]
  note res = resolve_outcome [OF pos, of "d_player d" "calcDamage (d_action d) r"]
  have nonneg: "0 \<le> health (opponent (acting_seat (d_player d)))
      (snd (checkWinner (applyDamage (d_player d) (calcDamage (d_action d) r) (gameState rm))))"
    using res by simp
  show ?thesis
    unfolding Let_def using run res nonneg by (simp del: acting_seat.simps)
qed

lemma game_action_own_label:
  "rooms (run init endgame) ''NNNN'' =
     Some \<lparr>code = ''NNNN'', room_players = [''s1'', ''s2''],
            gameState = \<lparr>player1Health = 80, player2Health = 22, gameActive = True,
              currentTurn = Player1, roundN = 1, player1Wins = 0, player2Wins = 0\<rparr>,
            createdAt = 3, lastActivity = 9\<rparr>
   \<and> players (run init endgame) ''s1'' \<noteq> None
   \<and> game_action ''s1'' 10 (63 / 64) (Some (action ''NNNN'' ''player1'' ''special''))
         (run init endgame) =
       Returned
         ((run init endgame)\<lparr>rooms := (rooms (run init endgame))(''NNNN'' \<mapsto>
            \<lparr>code = ''NNNN'', room_players = [''s1'', ''s2''],
             gameState = \<lparr>player1Health = 80, player2Health = 0, gameActive = False,
               currentTurn = Player2, roundN = 1, player1Wins = 1, player2Wins = 0\<rparr>,
             createdAt = 3, lastActivity = 10\<rparr>)\<rparr>)
         [Io_to_emit ''NNNN'' (Game_action_msg (Some ''special'') (Some ''player1'') 39),
          Io_to_emit ''NNNN'' (Game_update 80 0 Player2 (Some Player1) 1 0)]"
  using game_action_by_label [of "action ''NNNN'' ''player1'' ''special''" "''NNNN''" endgame
      "the (rooms (run init endgame) ''NNNN'')" "''s1''" _ "63 / 64" 10]
  by (simp add: endgame_rooms endgame_players lobby_players play Let_def)

text \<open>
  C5. The seat that is hit and the seat that is declared winner are not the defender
  and the attacker of every accepted action. Seat A, with 22 health left against 100,
  holds the turn and sends a special with the label \<open>'player2'\<close>: the action passes
  the turn check, the 39 damage is taken from seat A's own health, which is clamped to
  0, and the \<open>game_update\<close> broadcast declares seat B the winner and carries seat B's
  win counter incremented, although seat B did not act and its health, the defender's,
  stays at 100.
\<close>

theorem game_action_win_spoofed:
  "rooms (run init selfhits) ''NNNN'' =
     Some \<lparr>code = ''NNNN'', room_players = [''s1'', ''s2''],
            gameState = \<lparr>player1Health = 22, player2Health = 100, gameActive = True,
              currentTurn = Player1, roundN = 1, player1Wins = 0, player2Wins = 0\<rparr>,
            createdAt = 3, lastActivity = 7\<rparr>
   \<and> seat_of ''s1'' [''s1'', ''s2''] = Player1
   \<and> game_action ''s1'' 8 (63 / 64) (Some (action ''NNNN'' ''player2'' ''special''))
         (run init selfhits) =
       Returned
         ((run init selfhits)\<lparr>rooms := (rooms (run init selfhits))(''NNNN'' \<mapsto>
            \<lparr>code = ''NNNN'', room_players = [''s1'', ''s2''],
             gameState = \<lparr>player1Health = 0, player2Health = 100, gameActive = False,
               currentTurn = Player1, roundN = 1, player1Wins = 0, player2Wins = 1\<rparr>,
             createdAt = 3, lastActivity = 8\<rparr>)\<rparr>)
         [Io_to_emit ''NNNN'' (Game_action_msg (Some ''special'') (Some ''player2'') 39),
          Io_to_emit ''NNNN'' (Game_update 0 100 Player1 (Some Player2) 0 1)]"
  by (simp add: selfhits_rooms selfhits_players lobby_players play)

section \<open>Guards, room size, start and restart\<close>

lemma half_collides: "rs ''NNNN'' \<noteq> None \<Longrightarrow> generateRoomCode frames rs half k = None"
  by (induction frames arbitrary: k) (simp_all add: half_code)

lemma retry_generate:
  assumes "rs ''NNNN'' \<noteq> None" "rs ''AAAA'' = None"
  shows "generateRoomCode 2 rs retry 0 = Some ''AAAA''"
proof -
  have "generateRoomCode (Suc (Suc 0)) rs retry 0 = Some ''AAAA''"
    using assms retry_attempts by (simp add: attempt_def)
  then show ?thesis by (simp add: numeral_2_eq_2)
qed

text \<open>
  C6, as amended. After any sequence of events every room of the store has a non-empty
  player list, so the read of \<open>room.players[0].id\<close> in \<open>game_action\<close> is always
  defined. And no handler throws on an event whose payload is an object, provided that
  no \<open>set_name\<close> so far, this event included, carried a name without a string form,
  and that the retry of \<open>generateRoomCode\<close> in \<open>create_room\<close> finds a free code
  within the call stack. A payload that is \<open>undefined\<close> or \<open>null\<close> is not guarded
  against by any handler, nor is a name that cannot be printed, nor the depth of the
  retry.
\<close>

theorem no_throw:
  "(\<forall>c rm. rooms (run init es) c = Some rm \<longrightarrow> room_players rm \<noteq> [])
   \<and> (list_all printable_event es \<and> printable_event e \<and> has_payload e
        \<and> generation_returns e (run init es) \<longrightarrow> \<not> threw (handle e (run init es)))"
proof (intro conjI allI impI)
  fix c rm assume "rooms (run init es) c = Some rm"
  with reachable_ok have "room_ok rm" by (rule rooms_okD)
  then show "room_players rm \<noteq> []" by (simp add: room_ok_def)
next
  assume a: "list_all printable_event es \<and> printable_event e \<and> has_payload e
        \<and> generation_returns e (run init es)"
  then have "\<forall>e\<in>set es. printable_event e" by (simp add: list_all_iff)
  with init_names have "names_ok (run init es)" by (rule run_names)
  with reachable_ok show "\<not> threw (handle e (run init es))"
    using a by (intro no_throw_step) simp_all
qed

theorem no_throw_witness:
  "rooms (run init started) ''NNNN'' \<noteq> None
   \<and> room_players (the (rooms (run init started) ''NNNN'')) \<noteq> []
   \<and> list_all printable_event started
   \<and> printable_event (Create_room ''s2'' 6 retry 2)
   \<and> has_payload (Create_room ''s2'' 6 retry 2)
   \<and> generation_returns (Create_room ''s2'' 6 retry 2) (run init started)
   \<and> \<not> threw (handle (Create_room ''s2'' 6 retry 2) (run init started))"
proof -
  have free: "rooms (run init started) ''AAAA'' = None"
    using lobby_free
    by (simp add: started_def run_append start_game_def to_room_def lobby_rooms)
  have g: "generateRoomCode 2 (rooms (run init started)) retry 0 = Some ''AAAA''"
    by (rule retry_generate) (simp_all add: started_rooms free)
  have la: "list_all printable_event started"
    by (simp add: started_def lobby_def)
  show ?thesis
    using no_throw [of started "Create_room ''s2'' 6 retry 2"] g la
    by (simp add: started_rooms)
qed

text \<open>
  A registered connection sends \<open>set_name\<close>, \<open>join_room\<close> or \<open>game_action\<close> with no
  payload: the handler throws a TypeError. It sends \<open>set_name\<close> with an object whose
  name has no string form: the name is stored and the handler throws a TypeError at its
  \<open>console.log\<close>; so does the \<open>create_room\<close> that follows, after the room is stored.
  And \<open>create_room\<close> with draws that always give the code of a room of the store ends
  in a RangeError.
\<close>

theorem no_throw_counterexample:
  "players (run init [Connection ''s1'' 1]) ''s1'' \<noteq> None
   \<and> handle (Set_name ''s1'' None) (run init [Connection ''s1'' 1])
       = Threw TypeError (run init [Connection ''s1'' 1]) []
   \<and> handle (Join_room ''s1'' 2 None) (run init [Connection ''s1'' 1])
       = Threw TypeError (run init [Connection ''s1'' 1]) []
   \<and> handle (Game_action ''s1'' 2 0 None) (run init [Connection ''s1'' 1])
       = Threw TypeError (run init [Connection ''s1'' 1]) []
   \<and> has_payload (Set_name ''s1'' (Some (named Unprintable)))
   \<and> threw (handle (Set_name ''s1'' (Some (named Unprintable))) (run init [Connection ''s1'' 1]))
   \<and> map_option name (players (state_of (handle (Set_name ''s1'' (Some (named Unprintable)))
        (run init [Connection ''s1'' 1]))) ''s1'') = Some Unprintable
   \<and> threw (handle (Create_room ''s1'' 3 half 10000)
        (run init [Connection ''s1'' 1, Set_name ''s1'' (Some (named Unprintable))]))
   \<and> rooms (state_of (handle (Create_room ''s1'' 3 half 10000)
        (run init [Connection ''s1'' 1, Set_name ''s1'' (Some (named Unprintable))]))) ''NNNN''
       \<noteq> None
   \<and> handle (Create_room ''s2'' 5 half 10000) (run init lobby)
       = Threw RangeError (run init lobby) []"
proof -
  have r: "handle (Create_room ''s2'' 5 half 10000) (run init lobby)
       = Threw RangeError (run init lobby) []"
    by (simp add: create_room_def lobby_players half_collides lobby_rooms)
  have g: "generateRoomCode 10000 Map.empty half 0 = Some ''NNNN''"
    by (rule generate_half) simp_all
  show ?thesis
    using r g
    by (simp add: init_def connection_def set_name_def join_room_def game_action_def
        create_room_def named_def truthy_def template_throws_def)
qed

text \<open>
  C7. After any sequence of events no room of the store has more than 2 entries in its
  player list. For a registered caller, \<open>join_room\<close> on a room with 2 entries returns
  with the state unchanged and the single private emission \<open>room_full\<close>, and
  \<open>join_room\<close> with a code that is not in the store returns with the state unchanged
  and the single private emission \<open>room_not_found\<close>.
\<close>

theorem join_room_bounds:
  "(\<forall>c rm. rooms (run init es) c = Some rm \<longrightarrow> length (room_players rm) \<le> 2)
   \<and> (players st sid \<noteq> None \<and> d_roomCode d = Some c \<and> rooms st c = Some rm
        \<and> length (room_players rm) = 2 \<longrightarrow>
          join_room sid now (Some d) st = Returned st [Socket_emit sid Room_full])
   \<and> (players st sid \<noteq> None \<and> rooms_get (rooms st) (d_roomCode d) = None \<longrightarrow>
          join_room sid now (Some d) st = Returned st [Socket_emit sid Room_not_found])"
proof (intro conjI allI impI)
  fix c rm assume "rooms (run init es) c = Some rm"
  with reachable_ok have "room_ok rm" by (rule rooms_okD)
  then show "length (room_players rm) \<le> 2" by (simp add: room_ok_def)
next
  assume "players st sid \<noteq> None \<and> d_roomCode d = Some c \<and> rooms st c = Some rm
        \<and> length (room_players rm) = 2"
  then show "join_room sid now (Some d) st = Returned st [Socket_emit sid Room_full]"
    by (auto simp: join_room_def)
next
  assume "players st sid \<noteq> None \<and> rooms_get (rooms st) (d_roomCode d) = None"
  then show "join_room sid now (Some d) st = Returned st [Socket_emit sid Room_not_found]"
    by (auto simp: join_room_def rooms_get_def split: option.splits)
qed

theorem join_room_bounds_witness:
  "length (room_players (the (rooms (run init lobby) ''NNNN''))) = 2
   \<and> players (run init lobby) ''s1'' \<noteq> None
   \<and> join_room ''s1'' 5 (Some (to_room ''NNNN'')) (run init lobby)
       = Returned (run init lobby) [Socket_emit ''s1'' Room_full]
   \<and> rooms_get (rooms (run init lobby)) (d_roomCode (to_room ''AAAA'')) = None
   \<and> join_room ''s1'' 5 (Some (to_room ''AAAA'')) (run init lobby)
       = Returned (run init lobby) [Socket_emit ''s1'' Room_not_found]"
proof -
  note free = lobby_free
  note t = join_room_bounds [of lobby "run init lobby" "''s1''" _ "''NNNN''"
      "the (rooms (run init lobby) ''NNNN'')" 5]
  have a: "join_room ''s1'' 5 (Some (to_room ''NNNN'')) (run init lobby)
       = Returned (run init lobby) [Socket_emit ''s1'' Room_full]"
    using t [of "to_room ''NNNN''"] by (simp add: lobby_rooms lobby_players to_room_def)
  have b: "join_room ''s1'' 5 (Some (to_room ''AAAA'')) (run init lobby)
       = Returned (run init lobby) [Socket_emit ''s1'' Room_not_found]"
    using t [of "to_room ''AAAA''"] by (simp add: free lobby_players to_room_def rooms_get_def)
  show ?thesis
    using a b free by (simp add: lobby_rooms lobby_players to_room_def rooms_get_def)
qed

text \<open>
  C8. On a room with exactly 2 entries \<open>start_game\<close> sets both health values to 100,
  the active flag to true and the turn to seat A and leaves the rest of the combat state,
  the round counter among it, as it was; \<open>restart_game\<close> does the same and adds one to
  the round counter; neither changes the player list. When the room is absent or has
  another number of entries, both return with the state unchanged and nothing emitted.
\<close>

theorem start_restart_game:
  "(d_roomCode d = Some c \<and> rooms st c = Some rm \<and> length (room_players rm) = 2 \<longrightarrow>
      map_option gameState (rooms (state_of (start_game sid now (Some d) st)) c)
        = Some ((gameState rm)\<lparr>player1Health := 100, player2Health := 100,
                  gameActive := True, currentTurn := Player1\<rparr>)
    \<and> map_option gameState (rooms (state_of (restart_game sid now (Some d) st)) c)
        = Some ((gameState rm)\<lparr>player1Health := 100, player2Health := 100,
                  gameActive := True, currentTurn := Player1,
                  roundN := roundN (gameState rm) + 1\<rparr>)
    \<and> map_option room_players (rooms (state_of (start_game sid now (Some d) st)) c)
        = Some (room_players rm)
    \<and> map_option room_players (rooms (state_of (restart_game sid now (Some d) st)) c)
        = Some (room_players rm))
   \<and> ((case rooms_get (rooms st) (d_roomCode d) of
          None \<Rightarrow> True
        | Some rm \<Rightarrow> length (room_players rm) \<noteq> 2) \<longrightarrow>
      start_game sid now (Some d) st = Returned st []
    \<and> restart_game sid now (Some d) st = Returned st [])"
proof (intro conjI impI)
  assume "case rooms_get (rooms st) (d_roomCode d) of
            None \<Rightarrow> True | Some rm \<Rightarrow> length (room_players rm) \<noteq> 2"
  then show "start_game sid now (Some d) st = Returned st []"
    and "restart_game sid now (Some d) st = Returned st []"
    by (auto simp: start_game_def restart_game_def rooms_get_def split: option.splits)
next
  assume a: "d_roomCode d = Some c \<and> rooms st c = Some rm \<and> length (room_players rm) = 2"
  obtain h1 h2 act turn rnd w1 w2 where g: "gameState rm =
      \<lparr>player1Health = h1, player2Health = h2, gameActive = act, currentTurn = turn,
       roundN = rnd, player1Wins = w1, player2Wins = w2\<rparr>"
    by (cases "gameState rm") simp
  from a g show "map_option gameState (rooms (state_of (start_game sid now (Some d) st)) c)
        = Some ((gameState rm)\<lparr>player1Health := 100, player2Health := 100,
                  gameActive := True, currentTurn := Player1\<rparr>)"
    by (simp add: start_game_def Let_def)
  from a g show "map_option gameState (rooms (state_of (restart_game sid now (Some d) st)) c)
        = Some ((gameState rm)\<lparr>player1Health := 100, player2Health := 100,
                  gameActive := True, currentTurn := Player1,
                  roundN := roundN (gameState rm) + 1\<rparr>)"
    by (simp add: restart_game_def Let_def)
  from a show "map_option room_players (rooms (state_of (start_game sid now (Some d) st)) c)
        = Some (room_players rm)"
    by (simp add: start_game_def Let_def)
  from a show "map_option room_players (rooms (state_of (restart_game sid now (Some d) st)) c)
        = Some (room_players rm)"
    by (simp add: restart_game_def Let_def)
qed

theorem start_restart_game_witness:
  "rooms (run init lobby) ''NNNN'' =
     Some \<lparr>code = ''NNNN'', room_players = [''s1'', ''s2''],
            gameState = \<lparr>player1Health = 100, player2Health = 100, gameActive = False,
              currentTurn = Player1, roundN = 1, player1Wins = 0, player2Wins = 0\<rparr>,
            createdAt = 3, lastActivity = 4\<rparr>
   \<and> map_option gameState
       (rooms (state_of (start_game ''s1'' 5 (Some (to_room ''NNNN'')) (run init lobby))) ''NNNN'') =
     Some \<lparr>player1Health = 100, player2Health = 100, gameActive = True,
              currentTurn = Player1, roundN = 1, player1Wins = 0, player2Wins = 0\<rparr>
   \<and> map_option gameState
       (rooms (state_of (restart_game ''s1'' 5 (Some (to_room ''NNNN'')) (run init lobby))) ''NNNN'') =
     Some \<lparr>player1Health = 100, player2Health = 100, gameActive = True,
              currentTurn = Player1, roundN = 2, player1Wins = 0, player2Wins = 0\<rparr>
   \<and> rooms_get (rooms (run init lobby)) (d_roomCode (to_room ''AAAA'')) = None
   \<and> start_game ''s1'' 5 (Some (to_room ''AAAA'')) (run init lobby) = Returned (run init lobby) []
   \<and> restart_game ''s1'' 5 (Some (to_room ''AAAA'')) (run init lobby) = Returned (run init lobby) []"
proof -
  note free = lobby_free
  have a: "start_game ''s1'' 5 (Some (to_room ''AAAA'')) (run init lobby) = Returned (run init lobby) []
    \<and> restart_game ''s1'' 5 (Some (to_room ''AAAA'')) (run init lobby) = Returned (run init lobby) []"
    using start_restart_game [of "to_room ''AAAA''" _ "run init lobby" _ "''s1''" 5]
    by (simp add: free to_room_def rooms_get_def)
  show ?thesis
    using a free start_restart_game [of "to_room ''NNNN''" "''NNNN''" "run init lobby"
        "the (rooms (run init lobby) ''NNNN'')" "''s1''" 5]
    by (simp add: lobby_rooms to_room_def rooms_get_def)
qed

section \<open>Leaving and disconnecting\<close>

text \<open>
  C10. When a registered player whose room holds two different players, one of them the
  player itself, sends \<open>leave_room\<close>: the room stays in the store with the other
  player as its only entry and the last-activity timestamp the current time; the round
  counter, both win counters, the turn indicator, the room code and the creation
  timestamp are unchanged. Both health values are 100 and the active flag is false
  afterwards; only when the player's name has no string form, so that the handler
  throws at its \<open>console.log\<close> before the reset, these three are unchanged as well.
\<close>

theorem leave_room_frame:
  assumes "players st sid = Some p" "room p = Some c" "c \<noteq> []" "rooms st c = Some rm"
    "room_players rm = [a, b]" "a \<noteq> b" "sid = a \<or> sid = b"
  shows "\<exists>rm'. rooms (state_of (leave_room sid now data st)) c = Some rm'
       \<and> room_players rm' = (if sid = a then [b] else [a])
       \<and> player1Health (gameState rm')
           = (if template_throws (name p) then player1Health (gameState rm) else 100)
       \<and> player2Health (gameState rm')
           = (if template_throws (name p) then player2Health (gameState rm) else 100)
       \<and> gameActive (gameState rm') = (template_throws (name p) \<and> gameActive (gameState rm))
       \<and> lastActivity rm' = now
       \<and> roundN (gameState rm') = roundN (gameState rm)
       \<and> player1Wins (gameState rm') = player1Wins (gameState rm)
       \<and> player2Wins (gameState rm') = player2Wins (gameState rm)
       \<and> currentTurn (gameState rm') = currentTurn (gameState rm)
       \<and> code rm' = code rm
       \<and> createdAt rm' = createdAt rm"
  using assms
  by (cases data) (auto simp: leave_room_def leave_room_end_def Let_def)

theorem leave_room_frame_witness:
  "rooms (run init midgame) ''NNNN'' =
     Some \<lparr>code = ''NNNN'', room_players = [''s1'', ''s2''],
            gameState = \<lparr>player1Health = 100, player2Health = 88, gameActive = True,
              currentTurn = Player2, roundN = 1, player1Wins = 0, player2Wins = 0\<rparr>,
            createdAt = 3, lastActivity = 6\<rparr>
   \<and> map_option room (players (run init midgame) ''s2'') = Some (Some ''NNNN'')
   \<and> rooms (state_of (leave_room ''s2'' 7 (Some (to_room ''NNNN'')) (run init midgame))) ''NNNN'' =
     Some \<lparr>code = ''NNNN'', room_players = [''s1''],
            gameState = \<lparr>player1Health = 100, player2Health = 100, gameActive = False,
              currentTurn = Player2, roundN = 1, player1Wins = 0, player2Wins = 0\<rparr>,
            createdAt = 3, lastActivity = 7\<rparr>"
proof -
  from leave_room_frame [of "run init midgame" "''s2''" "the (players (run init lobby) ''s2'')"
      "''NNNN''" "the (rooms (run init midgame) ''NNNN'')" "''s1''" "''s2''" 7
      "Some (to_room ''NNNN'')"]
  obtain rm' where
    "rooms (state_of (leave_room ''s2'' 7 (Some (to_room ''NNNN'')) (run init midgame))) ''NNNN''
       = Some rm'"
    "room_players rm' = [''s1'']" "player1Health (gameState rm') = 100"
    "player2Health (gameState rm') = 100" "\<not> gameActive (gameState rm')" "lastActivity rm' = 7"
    "roundN (gameState rm') = 1" "player1Wins (gameState rm') = 0"
    "player2Wins (gameState rm') = 0" "currentTurn (gameState rm') = Player2"
    "code rm' = ''NNNN''" "createdAt rm' = 3"
    by (auto simp: midgame_rooms midgame_players lobby_players template_throws_def)
  then have "rooms (state_of (leave_room ''s2'' 7 (Some (to_room ''NNNN'')) (run init midgame))) ''NNNN'' =
     Some \<lparr>code = ''NNNN'', room_players = [''s1''],
            gameState = \<lparr>player1Health = 100, player2Health = 100, gameActive = False,
              currentTurn = Player2, roundN = 1, player1Wins = 0, player2Wins = 0\<rparr>,
            createdAt = 3, lastActivity = 7\<rparr>"
    by (cases rm', cases "gameState rm'") simp
  then show ?thesis by (simp add: midgame_rooms midgame_players lobby_players)
qed

text \<open>
  A list with the same player twice: \<open>join_room\<close> does not look whether the caller is
  already in the room, so the creator of a room can join it again. The filter of
  \<open>leave_room\<close> then removes both entries and the room is deleted.
\<close>

lemma leave_room_self_joined:
  "map_option room_players
     (rooms (run init [Connection ''s1'' 1, Create_room ''s1'' 2 half 10000,
        Join_room ''s1'' 3 (Some (to_room ''NNNN''))]) ''NNNN'') = Some [''s1'', ''s1'']
   \<and> rooms (run init [Connection ''s1'' 1, Create_room ''s1'' 2 half 10000,
        Join_room ''s1'' 3 (Some (to_room ''NNNN'')),
        Leave_room ''s1'' 4 (Some (to_room ''NNNN''))]) ''NNNN'' = None"
proof -
  have g: "generateRoomCode 10000 Map.empty half 0 = Some ''NNNN''"
    by (rule generate_half) simp_all
  show ?thesis
    using g
    by (simp add: init_def connection_def create_room_def join_room_def leave_room_def
        leave_room_end_def to_room_def template_throws_def)
qed

text \<open>
  What \<open>disconnect\<close> shares with \<open>leave_room\<close>: for a player without a room it only
  unregisters; for a player in a room, whose name has a string form, it emits what
  \<open>leave_room\<close> emits to the room, and leaves the same rooms in the store with the same
  player lists and the same active flags.
\<close>

lemma disconnect_without_room:
  assumes "players st sid = Some p" "room p = None"
  shows "disconnect sid now st = Returned (st\<lparr>players := (players st)(sid := None)\<rparr>) []"
  using assms by (simp add: disconnect_def)

lemma disconnect_unregistered:
  assumes "players st sid = None"
  shows "disconnect sid now st = Returned st []"
  using assms by (simp add: disconnect_def fun_upd_idem)

lemma disconnect_same_room_outcome:
  assumes "players st sid = Some p" "room p = Some c" "c \<noteq> []" "\<not> template_throws (name p)"
  shows "effects_of (leave_room sid now (Some d) st)
           = effects_of (disconnect sid now st) @ [Socket_leave sid (d_roomCode d)]"
    and "dom (rooms (state_of (leave_room sid now (Some d) st)))
           = dom (rooms (state_of (disconnect sid now st)))"
    and "map_option room_players (rooms (state_of (leave_room sid now (Some d) st)) c')
           = map_option room_players (rooms (state_of (disconnect sid now st)) c')"
    and "map_option (gameActive \<circ> gameState) (rooms (state_of (leave_room sid now (Some d) st)) c')
           = map_option (gameActive \<circ> gameState) (rooms (state_of (disconnect sid now st)) c')"
  using assms
  by (auto simp: leave_room_def leave_room_end_def disconnect_def Let_def
      split: option.splits if_splits)

text \<open>
  C3. In the middle of a round, with the second seat at 88, the first seat leaves or
  disconnects. \<open>leave_room\<close> resets both health values to 100; \<open>disconnect\<close>
  removes the player, emits the same \<open>player_left\<close>, sets the active flag to false
  and unregisters the player, but leaves the health values at 100 and 88.
\<close>

theorem disconnect_keeps_health:
  "rooms (run init midgame) ''NNNN'' =
     Some \<lparr>code = ''NNNN'', room_players = [''s1'', ''s2''],
            gameState = \<lparr>player1Health = 100, player2Health = 88, gameActive = True,
              currentTurn = Player2, roundN = 1, player1Wins = 0, player2Wins = 0\<rparr>,
            createdAt = 3, lastActivity = 6\<rparr>
   \<and> rooms (state_of (leave_room ''s1'' 7 (Some (to_room ''NNNN'')) (run init midgame))) ''NNNN'' =
     Some \<lparr>code = ''NNNN'', room_players = [''s2''],
            gameState = \<lparr>player1Health = 100, player2Health = 100, gameActive = False,
              currentTurn = Player2, roundN = 1, player1Wins = 0, player2Wins = 0\<rparr>,
            createdAt = 3, lastActivity = 7\<rparr>
   \<and> rooms (state_of (disconnect ''s1'' 7 (run init midgame))) ''NNNN'' =
     Some \<lparr>code = ''NNNN'', room_players = [''s2''],
            gameState = \<lparr>player1Health = 100, player2Health = 88, gameActive = False,
              currentTurn = Player2, roundN = 1, player1Wins = 0, player2Wins = 0\<rparr>,
            createdAt = 3, lastActivity = 7\<rparr>
   \<and> effects_of (disconnect ''s1'' 7 (run init midgame))
       = [Io_to_emit ''NNNN'' (Player_left [''s2''])]
   \<and> players (state_of (disconnect ''s1'' 7 (run init midgame))) ''s1'' = None"
  by (simp add: leave_room_def leave_room_end_def disconnect_def midgame_rooms midgame_players
      lobby_players to_room_def template_throws_def)

end
